theory Spec2Isabelle
  imports Complex_Main "HOL-Library.Log_Nat"
begin

section \<open>GeoStruct: the mesh analysis engine \<open>analyzeGeometry\<close>\<close>

text \<open>
  The engine turns a position buffer and an optional index buffer into a
  \<open>ProcessedMesh\<close>: merged vertices, faces, soup triangles, half-edges and winged edges.
  The embedding below follows the TypeScript source pass by pass. Mutable arrays are
  lists that each pass returns updated, the \<open>Map\<close> objects are partial functions, and a
  JavaScript exception is the left summand of the result.
\<close>

subsection \<open>Numbers and the data model (types.ts)\<close>

text \<open>
  A JavaScript number is an IEEE 754 double. A finite double is modelled by the real
  number it denotes (\<open>0\<close> and \<open>-0\<close>, which are equal as numbers and print alike, are one
  value); the two infinities and \<open>NaN\<close> stand beside the finite numbers.
\<close>

datatype number = Finite real | PosInf | NegInf | NaN

text \<open>
  An arithmetic operation on doubles yields the exact result rounded to the nearest
  double, a tie to the one with an even significand. A double has a significand of 53
  bits; the exponent of a normal double is at least \<open>-1022\<close>, below that the spacing of
  the subnormal doubles stays \<open>2 ^ -1074\<close>; a result that rounds to \<open>2 ^ 1024\<close> or beyond
  is an infinity. \<open>exponentOf x\<close> is the floor of the binary logarithm of a positive \<open>x\<close>.
\<close>

definition exponentOf :: "real \<Rightarrow> int" where
  "exponentOf x = (if 1 \<le> x then bitlen \<lfloor>x\<rfloor> - 1 else - bitlen (\<lceil>1 / x\<rceil> - 1))"

definition twoTo :: "int \<Rightarrow> real" where
  "twoTo k = (if 0 \<le> k then 2 ^ nat k else 1 / 2 ^ nat (- k))"

definition roundHalfEven :: "real \<Rightarrow> int" where
  "roundHalfEven z =
     (let f = \<lfloor>z\<rfloor>; d = z - of_int f
      in if d < 1 / 2 then f else if 1 / 2 < d then f + 1 else if even f then f else f + 1)"

definition roundToDouble :: "real \<Rightarrow> number" where
  "roundToDouble x =
     (if x = 0 then Finite 0
      else
        (let e = max (exponentOf \<bar>x\<bar>) (- 1022);
             ulp = twoTo (e - 52);
             y = of_int (roundHalfEven (x / ulp)) * ulp
         in if 2 ^ 1024 \<le> \<bar>y\<bar> then (if 0 < x then PosInf else NegInf) else Finite y))"

text \<open>
  The three operations of the helper \<open>r\<close>. An operand that is \<open>undefined\<close> (\<open>None\<close>, a read
  past the end of the buffer) converts to \<open>NaN\<close>. The product with the literal \<open>100\<close> and
  the quotient by it are rounded to a double. \<open>Math.round\<close> gives the nearest integer, a
  tie towards \<open>+\<infinity>\<close>: the floor of the number plus one half, which is a double whenever
  the number is one, so nothing is rounded there.
\<close>

definition toNumber :: "real option \<Rightarrow> number" where
  "toNumber v = (case v of None \<Rightarrow> NaN | Some x \<Rightarrow> Finite x)"

definition timesHundred :: "number \<Rightarrow> number" where
  "timesHundred n = (case n of Finite x \<Rightarrow> roundToDouble (x * 100) | other \<Rightarrow> other)"

definition mathRound :: "number \<Rightarrow> number" where
  "mathRound n = (case n of Finite x \<Rightarrow> Finite (of_int \<lfloor>x + 1 / 2\<rfloor>) | other \<Rightarrow> other)"

definition dividedByHundred :: "number \<Rightarrow> number" where
  "dividedByHundred n = (case n of Finite x \<Rightarrow> roundToDouble (x / 100) | other \<Rightarrow> other)"

datatype error = TypeError

record vector3 =
  vec_x :: number
  vec_y :: number
  vec_z :: number

record vertexData =
  v_id :: nat
  v_x :: number
  v_y :: number
  v_z :: number
  v_incidentEdge :: "nat option"
  v_incidentHalfEdge :: "nat option"

record faceData =
  f_id :: nat
  f_v1 :: nat
  f_v2 :: nat
  f_v3 :: nat
  f_incidentEdge :: "nat option"
  f_incidentHalfEdge :: "nat option"

record soupTriangleData =
  s_id :: nat
  s_v1 :: vector3
  s_v2 :: vector3
  s_v3 :: vector3

record halfEdgeData =
  h_id :: nat
  originVertex :: nat
  targetVertex :: nat
  h_face :: nat
  h_twin :: "nat option"
  h_next :: nat
  h_prev :: nat

text \<open>
  \<open>WingedEdgeData\<close> declares \<open>createdStep\<close> as a number; a JavaScript object built
  without the property reads as \<open>undefined\<close> there, which is \<open>None\<close>. The face and
  wing fields are numbers in which \<open>-1\<close> means "none".
\<close>

record wingedEdgeData =
  w_id :: nat
  createdStep :: "nat option"
  startVertex :: nat
  endVertex :: nat
  faceLeft :: int
  faceRight :: int
  predLeft :: int
  succLeft :: int
  predRight :: int
  succRight :: int

record processedMesh =
  vertices :: "vertexData list"
  faces :: "faceData list"
  soupTriangles :: "soupTriangleData list"
  halfEdges :: "halfEdgeData list"
  edges :: "wingedEdgeData list"

text \<open>
  The part of \<open>THREE.BufferGeometry\<close> the engine reads: the array of the position
  attribute, holding finite doubles (the values of a \<open>Float32Array\<close> are doubles too), and
  the array of the index, when there is one.
\<close>

record bufferGeometry =
  position :: "real list"
  index :: "nat list option"

text \<open>The engine's local \<open>TempHalfEdge\<close> interface.\<close>

record tempHalfEdge =
  t_id :: nat
  t_origin :: nat
  t_target :: nat
  t_face :: nat
  t_next :: nat
  t_prev :: nat
  t_twin :: "nat option"

subsection \<open>Vertex Merger\<close>

text \<open>The helper \<open>r\<close>: \<open>Math.round(n * 100) / 100\<close>.\<close>

definition r :: "real option \<Rightarrow> number" where
  "r n = dividedByHundred (mathRound (timesHundred (toNumber n)))"

text \<open>\<open>positions[i]\<close>: a read past the end of the typed array is \<open>undefined\<close>.\<close>

definition element :: "real list \<Rightarrow> nat \<Rightarrow> real option" where
  "element positions i = (if i < length positions then Some (positions ! i) else None)"

text \<open>
  Rounding to two decimal places as the specification words it, on the real number
  itself and with no double in between; it is what \<open>r\<close> approximates, and it is not used
  by the engine.
\<close>

definition roundTwoDecimalsExact :: "real \<Rightarrow> real" where
  "roundTwoDecimalsExact x = of_int \<lfloor>x * 100 + 1 / 2\<rfloor> / 100"

text \<open>
  The dedup key is the template string \<open>x_y_z\<close> of the three rounded coordinates.
  Number-to-string conversion separates numbers that differ (\<open>0\<close> and \<open>-0\<close>, which are
  equal, both print as \<open>0\<close>; every \<open>NaN\<close> prints as \<open>NaN\<close>) and the separator occurs in
  none of them, so the key is modelled as the triple itself.
\<close>

type_synonym vertexKey = "number \<times> number \<times> number"

definition roundedKey :: "real list \<Rightarrow> nat \<Rightarrow> vertexKey" where
  "roundedKey positions pIdx =
     (r (element positions pIdx), r (element positions (pIdx + 1)),
      r (element positions (pIdx + 2)))"

type_synonym mergerState = "vertexData list \<times> (vertexKey \<rightharpoonup> nat)"

definition getOrAddVertex :: "real list \<Rightarrow> nat \<Rightarrow> mergerState \<Rightarrow> nat \<times> mergerState" where
  "getOrAddVertex positions pIdx st =
     (let verts = fst st; uniqueVertsMap = snd st;
          x = r (element positions pIdx);
          y = r (element positions (pIdx + 1));
          z = r (element positions (pIdx + 2));
          key = (x, y, z)
      in case uniqueVertsMap key of
           Some found \<Rightarrow> (found, st)
         | None \<Rightarrow>
             (let new = length verts
              in (new,
                  (verts @ [\<lparr>v_id = new, v_x = x, v_y = y, v_z = z,
                             v_incidentEdge = None, v_incidentHalfEdge = None\<rparr>],
                   uniqueVertsMap(key \<mapsto> new)))))"

text \<open>The loop \<open>processedIndices.push(getOrAddVertex(...))\<close> over a list of buffer offsets.\<close>

fun mergeAll :: "real list \<Rightarrow> nat list \<Rightarrow> mergerState \<Rightarrow> nat list \<times> mergerState" where
  "mergeAll positions [] st = ([], st)"
| "mergeAll positions (pIdx # rest) st =
     (let (vid, st1) = getOrAddVertex positions pIdx st;
          (vids, st2) = mergeAll positions rest st1
      in (vid # vids, st2))"

text \<open>
  The offsets the merger is called on: \<open>rawIndices[i] * 3\<close> for an indexed geometry,
  otherwise \<open>i * 3\<close> for every integer \<open>i < positions.length / 3\<close> (a real quotient, so
  a buffer whose length is not a multiple of 3 gets one more iteration).
\<close>

definition bufferOffsets :: "bufferGeometry \<Rightarrow> nat list" where
  "bufferOffsets g =
     (case index g of
        Some rawIndices \<Rightarrow> map (\<lambda>i. i * 3) rawIndices
      | None \<Rightarrow> map (\<lambda>i. i * 3) [0 ..< (length (position g) + 2) div 3])"

definition mergeVertices :: "bufferGeometry \<Rightarrow> nat list \<times> mergerState" where
  "mergeVertices g = mergeAll (position g) (bufferOffsets g) ([], Map.empty)"

subsection \<open>Face Builder and Soup Emitter\<close>

text \<open>
  Both loops step through \<open>processedIndices\<close> three at a time; the first argument is the
  group's ordinal \<open>i / 3\<close>. A trailing group of one or two ids gives the source a face
  with \<open>undefined\<close> vertex ids, and the soup loop, which comes next, throws a TypeError
  on it when it reads \<open>.x\<close> of \<open>vertices[undefined]\<close>. The model raises that error in
  \<open>buildSoup\<close>; \<open>buildFaces\<close> has no face to give for such a group.
\<close>

fun buildFaces :: "nat \<Rightarrow> nat list \<Rightarrow> faceData list" where
  "buildFaces k (a # b # c # rest) =
     \<lparr>f_id = k, f_v1 = a, f_v2 = b, f_v3 = c,
      f_incidentEdge = None, f_incidentHalfEdge = None\<rparr> # buildFaces (Suc k) rest"
| "buildFaces k rest = []"

definition vertexAt :: "vertexData list \<Rightarrow> nat \<Rightarrow> error + vector3" where
  "vertexAt verts i =
     (if i < length verts
      then Inr \<lparr>vec_x = v_x (verts ! i), vec_y = v_y (verts ! i), vec_z = v_z (verts ! i)\<rparr>
      else Inl TypeError)"

fun buildSoup :: "vertexData list \<Rightarrow> nat \<Rightarrow> nat list \<Rightarrow> error + soupTriangleData list" where
  "buildSoup verts k [] = Inr []"
| "buildSoup verts k (a # b # c # rest) =
     (case vertexAt verts a of Inl e \<Rightarrow> Inl e | Inr p1 \<Rightarrow>
      case vertexAt verts b of Inl e \<Rightarrow> Inl e | Inr p2 \<Rightarrow>
      case vertexAt verts c of Inl e \<Rightarrow> Inl e | Inr p3 \<Rightarrow>
      case buildSoup verts (Suc k) rest of Inl e \<Rightarrow> Inl e | Inr ts \<Rightarrow>
        Inr (\<lparr>s_id = k, s_v1 = p1, s_v2 = p2, s_v3 = p3\<rparr> # ts))"
| "buildSoup verts k rest = Inl TypeError"

subsection \<open>Half-Edge Builder\<close>

definition faceHalfEdges :: "faceData \<Rightarrow> tempHalfEdge list" where
  "faceHalfEdges face =
     (let vs = [f_v1 face, f_v2 face, f_v3 face]
      in map (\<lambda>i. \<lparr>t_id = f_id face * 3 + i,
                    t_origin = vs ! i,
                    t_target = vs ! ((i + 1) mod 3),
                    t_face = f_id face,
                    t_next = f_id face * 3 + ((i + 1) mod 3),
                    t_prev = f_id face * 3 + ((i + 2) mod 3),
                    t_twin = None\<rparr>) [0 ..< 3])"

definition buildTempHalfEdges :: "faceData list \<Rightarrow> tempHalfEdge list" where
  "buildTempHalfEdges fs = concat (map faceHalfEdges fs)"

text \<open>
  The keys of \<open>heLookup\<close> are the strings \<open>origin_target\<close> of two vertex ids, modelled as
  the ordered pair.
\<close>

type_synonym heLookup = "nat \<times> nat \<rightharpoonup> nat"

definition buildLookup :: "tempHalfEdge list \<Rightarrow> heLookup" where
  "buildLookup hes = fold (\<lambda>he m. m((t_origin he, t_target he) \<mapsto> t_id he)) hes Map.empty"

definition linkTwin :: "heLookup \<Rightarrow> tempHalfEdge \<Rightarrow> tempHalfEdge" where
  "linkTwin lk he =
     (case lk (t_target he, t_origin he) of
        Some twinId \<Rightarrow> he\<lparr>t_twin := Some twinId\<rparr>
      | None \<Rightarrow> he)"

definition toHalfEdge :: "tempHalfEdge \<Rightarrow> halfEdgeData" where
  "toHalfEdge he =
     \<lparr>h_id = t_id he, originVertex = t_origin he, targetVertex = t_target he,
      h_face = t_face he, h_twin = t_twin he, h_next = t_next he, h_prev = t_prev he\<rparr>"

text \<open>
  The back-references of half-edge mode. Every index written here is in range (vertex
  ids come from the merger, face ids from the face builder; see
  \<open>tempOf_vertices_in_range\<close> and \<open>halfEdges_shape\<close> below), so the assignment to a
  property of \<open>undefined\<close>, which would throw, never happens.
\<close>

definition setIncidentHalfEdge ::
  "halfEdgeData \<Rightarrow> vertexData list \<times> faceData list \<Rightarrow> vertexData list \<times> faceData list" where
  "setIncidentHalfEdge he st =
     (let verts = fst st; fs = snd st
      in (verts[originVertex he := (verts ! originVertex he)\<lparr>v_incidentHalfEdge := Some (h_id he)\<rparr>],
          fs[h_face he := (fs ! h_face he)\<lparr>f_incidentHalfEdge := Some (h_id he)\<rparr>]))"

subsection \<open>Winged-Edge Consolidator\<close>

text \<open>The key of an undirected edge: the string of the two ids, the smaller first, as a pair.\<close>

definition getEdgeKey :: "nat \<Rightarrow> nat \<Rightarrow> nat \<times> nat" where
  "getEdgeKey a b = (if a < b then (a, b) else (b, a))"

text \<open>
  The state of the first pass: \<open>wingedEdges\<close>, \<open>edgeKeyToIndex\<close> and \<open>heToWeMap\<close>. The index
  read back from \<open>edgeKeyToIndex\<close> is always one of \<open>wingedEdges\<close> (\<open>allocate_inv\<close> below),
  as the id that the second pass reads from \<open>heLookup\<close> is always one of
  \<open>tempHalfEdges\<close> (\<open>lookup_tempOf_Some\<close>).
\<close>

type_synonym wingedState =
  "wingedEdgeData list \<times> (nat \<times> nat \<rightharpoonup> nat) \<times> (nat \<rightharpoonup> nat)"

definition newWingedEdge :: "nat \<Rightarrow> tempHalfEdge \<Rightarrow> wingedEdgeData" where
  "newWingedEdge weId he =
     (let isCanonical = t_origin he < t_target he
      in \<lparr>w_id = weId, createdStep = None,
          startVertex = (if isCanonical then t_origin he else t_target he),
          endVertex = (if isCanonical then t_target he else t_origin he),
          faceLeft = -1, faceRight = -1,
          predLeft = -1, succLeft = -1, predRight = -1, succRight = -1\<rparr>)"

definition firstPass :: "tempHalfEdge \<Rightarrow> wingedState \<Rightarrow> wingedState" where
  "firstPass he st =
     (let wes = fst st; edgeKeyToIndex = fst (snd st); heToWeMap = snd (snd st);
          key = getEdgeKey (t_origin he) (t_target he);
          (weId, wes1, edgeKeyToIndex1) =
            (case edgeKeyToIndex key of
               None \<Rightarrow> (length wes, wes @ [newWingedEdge (length wes) he],
                         edgeKeyToIndex(key \<mapsto> length wes))
             | Some found \<Rightarrow> (found, wes, edgeKeyToIndex));
          we = wes1 ! weId
      in (wes1[weId := (if t_origin he = startVertex we
                        then we\<lparr>faceLeft := int (t_face he)\<rparr>
                        else we\<lparr>faceRight := int (t_face he)\<rparr>)],
          edgeKeyToIndex1,
          heToWeMap(t_id he \<mapsto> weId)))"

text \<open>The wings of one side: the winged edges of a half-edge's \<open>next\<close> and \<open>prev\<close>.\<close>

definition linkLeft ::
  "heLookup \<Rightarrow> tempHalfEdge list \<Rightarrow> (nat \<rightharpoonup> nat) \<Rightarrow> wingedEdgeData \<Rightarrow> wingedEdgeData" where
  "linkLeft lk hes heToWeMap we =
     (case lk (startVertex we, endVertex we) of
        None \<Rightarrow> we
      | Some heLeftId \<Rightarrow>
          (let heLeft = hes ! heLeftId;
               we1 = (case heToWeMap (t_next heLeft) of
                        Some succLeftWE \<Rightarrow> we\<lparr>succLeft := int succLeftWE\<rparr> | None \<Rightarrow> we)
           in (case heToWeMap (t_prev heLeft) of
                 Some predLeftWE \<Rightarrow> we1\<lparr>predLeft := int predLeftWE\<rparr> | None \<Rightarrow> we1)))"

definition linkRight ::
  "heLookup \<Rightarrow> tempHalfEdge list \<Rightarrow> (nat \<rightharpoonup> nat) \<Rightarrow> wingedEdgeData \<Rightarrow> wingedEdgeData" where
  "linkRight lk hes heToWeMap we =
     (case lk (endVertex we, startVertex we) of
        None \<Rightarrow> we
      | Some heRightId \<Rightarrow>
          (let heRight = hes ! heRightId;
               we1 = (case heToWeMap (t_next heRight) of
                        Some succRightWE \<Rightarrow> we\<lparr>succRight := int succRightWE\<rparr> | None \<Rightarrow> we)
           in (case heToWeMap (t_prev heRight) of
                 Some predRightWE \<Rightarrow> we1\<lparr>predRight := int predRightWE\<rparr> | None \<Rightarrow> we1)))"

definition setIncidentEdge ::
  "wingedEdgeData \<Rightarrow> vertexData list \<times> faceData list \<Rightarrow> vertexData list \<times> faceData list" where
  "setIncidentEdge we st =
     (let verts = fst st; fs = snd st;
          verts1 = verts[startVertex we := (verts ! startVertex we)\<lparr>v_incidentEdge := Some (w_id we)\<rparr>];
          verts2 = verts1[endVertex we := (verts1 ! endVertex we)\<lparr>v_incidentEdge := Some (w_id we)\<rparr>];
          fs1 = (if faceLeft we \<noteq> -1
                 then fs[nat (faceLeft we) := (fs ! nat (faceLeft we))\<lparr>f_incidentEdge := Some (w_id we)\<rparr>]
                 else fs);
          fs2 = (if faceRight we \<noteq> -1
                 then fs1[nat (faceRight we) := (fs1 ! nat (faceRight we))\<lparr>f_incidentEdge := Some (w_id we)\<rparr>]
                 else fs1)
      in (verts2, fs2))"

text \<open>
  One iteration of the second pass: the winged edge gets its wings, then the vertices
  and faces get their back-references. The state is the list of edges already
  processed with the vertex and face lists.
\<close>

definition secondPass ::
  "heLookup \<Rightarrow> tempHalfEdge list \<Rightarrow> (nat \<rightharpoonup> nat) \<Rightarrow> wingedEdgeData \<Rightarrow>
   wingedEdgeData list \<times> vertexData list \<times> faceData list \<Rightarrow>
   wingedEdgeData list \<times> vertexData list \<times> faceData list" where
  "secondPass lk hes heToWeMap we st =
     (let we1 = linkRight lk hes heToWeMap (linkLeft lk hes heToWeMap we)
      in (fst st @ [we1], setIncidentEdge we1 (snd st)))"

subsection \<open>The engine\<close>

definition analyzeGeometry :: "bufferGeometry \<Rightarrow> error + processedMesh" where
  "analyzeGeometry g =
     (let (processedIndices, merged) = mergeVertices g;
          verts0 = fst merged;
          faces0 = buildFaces 0 processedIndices
      in case buildSoup verts0 0 processedIndices of
           Inl e \<Rightarrow> Inl e
         | Inr soup \<Rightarrow>
             (let temp0 = buildTempHalfEdges faces0;
                  lk = buildLookup temp0;
                  tempHalfEdges = map (linkTwin lk) temp0;
                  hs = map toHalfEdge tempHalfEdges;
                  (verts1, faces1) =
                    (if length hs > 0 then fold setIncidentHalfEdge hs (verts0, faces0)
                     else (verts0, faces0));
                  (wes1, edgeKeyToIndex, heToWeMap) =
                    fold firstPass tempHalfEdges ([], Map.empty, Map.empty);
                  (wes2, verts2, faces2) =
                    fold (secondPass lk tempHalfEdges heToWeMap) wes1 ([], verts1, faces1)
              in Inr \<lparr>vertices = verts2, faces = faces2, soupTriangles = soup,
                      halfEdges = hs, edges = wes2\<rparr>))"

subsection \<open>Example geometries\<close>

text \<open>A single triangle with indices \<open>[0,1,2]\<close>.\<close>

definition triangle :: bufferGeometry where
  "triangle = \<lparr>position = [0, 0, 0, 1, 0, 0, 0, 1, 0], index = Some [0, 1, 2]\<rparr>"

text \<open>Two triangles \<open>(0,1,2)\<close> and \<open>(1,3,2)\<close> sharing the edge between vertices 1 and 2.\<close>

definition quad :: bufferGeometry where
  "quad = \<lparr>position = [0, 0, 0, 1, 0, 0, 0, 1, 0, 1, 1, 0],
           index = Some [0, 1, 2, 1, 3, 2]\<rparr>"

text \<open>A face that names the same vertex three times.\<close>

definition collapsed :: bufferGeometry where
  "collapsed = \<lparr>position = [0, 0, 0], index = Some [0, 0, 0]\<rparr>"

text \<open>A face that names one vertex twice.\<close>

definition sliver :: bufferGeometry where
  "sliver = \<lparr>position = [0, 0, 0, 1, 0, 0], index = Some [0, 0, 1]\<rparr>"

text \<open>What the engine returns on the single triangle.\<close>

definition triangleMesh :: processedMesh where
  "triangleMesh =
     \<lparr>vertices =
        [\<lparr>v_id = 0, v_x = Finite 0, v_y = Finite 0, v_z = Finite 0,
          v_incidentEdge = Some 2, v_incidentHalfEdge = Some 0\<rparr>,
         \<lparr>v_id = 1, v_x = Finite 1, v_y = Finite 0, v_z = Finite 0,
          v_incidentEdge = Some 1, v_incidentHalfEdge = Some 1\<rparr>,
         \<lparr>v_id = 2, v_x = Finite 0, v_y = Finite 1, v_z = Finite 0,
          v_incidentEdge = Some 2, v_incidentHalfEdge = Some 2\<rparr>],
      faces =
        [\<lparr>f_id = 0, f_v1 = 0, f_v2 = 1, f_v3 = 2, f_incidentEdge = Some 2,
          f_incidentHalfEdge = Some 2\<rparr>],
      soupTriangles =
        [\<lparr>s_id = 0,
          s_v1 = \<lparr>vec_x = Finite 0, vec_y = Finite 0, vec_z = Finite 0\<rparr>,
          s_v2 = \<lparr>vec_x = Finite 1, vec_y = Finite 0, vec_z = Finite 0\<rparr>,
          s_v3 = \<lparr>vec_x = Finite 0, vec_y = Finite 1, vec_z = Finite 0\<rparr>\<rparr>],
      halfEdges =
        [\<lparr>h_id = 0, originVertex = 0, targetVertex = 1, h_face = 0,
          h_twin = None, h_next = 1, h_prev = 2\<rparr>,
         \<lparr>h_id = 1, originVertex = 1, targetVertex = 2, h_face = 0,
          h_twin = None, h_next = 2, h_prev = 0\<rparr>,
         \<lparr>h_id = 2, originVertex = 2, targetVertex = 0, h_face = 0,
          h_twin = None, h_next = 0, h_prev = 1\<rparr>],
      edges =
        [\<lparr>w_id = 0, createdStep = None, startVertex = 0, endVertex = 1,
          faceLeft = 0, faceRight = - 1, predLeft = 2, succLeft = 1,
          predRight = - 1, succRight = - 1\<rparr>,
         \<lparr>w_id = 1, createdStep = None, startVertex = 1, endVertex = 2,
          faceLeft = 0, faceRight = - 1, predLeft = 0, succLeft = 2,
          predRight = - 1, succRight = - 1\<rparr>,
         \<lparr>w_id = 2, createdStep = None, startVertex = 0, endVertex = 2,
          faceLeft = - 1, faceRight = 0, predLeft = - 1, succLeft = - 1,
          predRight = 1, succRight = 0\<rparr>]\<rparr>"

text \<open>What the engine returns on the two triangles that share an edge.\<close>

definition quadMesh :: processedMesh where
  "quadMesh =
     \<lparr>vertices =
        [\<lparr>v_id = 0, v_x = Finite 0, v_y = Finite 0, v_z = Finite 0,
          v_incidentEdge = Some 2, v_incidentHalfEdge = Some 0\<rparr>,
         \<lparr>v_id = 1, v_x = Finite 1, v_y = Finite 0, v_z = Finite 0,
          v_incidentEdge = Some 3, v_incidentHalfEdge = Some 3\<rparr>,
         \<lparr>v_id = 2, v_x = Finite 0, v_y = Finite 1, v_z = Finite 0,
          v_incidentEdge = Some 4, v_incidentHalfEdge = Some 5\<rparr>,
         \<lparr>v_id = 3, v_x = Finite 1, v_y = Finite 1, v_z = Finite 0,
          v_incidentEdge = Some 4, v_incidentHalfEdge = Some 4\<rparr>],
      faces =
        [\<lparr>f_id = 0, f_v1 = 0, f_v2 = 1, f_v3 = 2, f_incidentEdge = Some 2,
          f_incidentHalfEdge = Some 2\<rparr>,
         \<lparr>f_id = 1, f_v1 = 1, f_v2 = 3, f_v3 = 2, f_incidentEdge = Some 4,
          f_incidentHalfEdge = Some 5\<rparr>],
      soupTriangles =
        [\<lparr>s_id = 0,
          s_v1 = \<lparr>vec_x = Finite 0, vec_y = Finite 0, vec_z = Finite 0\<rparr>,
          s_v2 = \<lparr>vec_x = Finite 1, vec_y = Finite 0, vec_z = Finite 0\<rparr>,
          s_v3 = \<lparr>vec_x = Finite 0, vec_y = Finite 1, vec_z = Finite 0\<rparr>\<rparr>,
         \<lparr>s_id = 1,
          s_v1 = \<lparr>vec_x = Finite 1, vec_y = Finite 0, vec_z = Finite 0\<rparr>,
          s_v2 = \<lparr>vec_x = Finite 1, vec_y = Finite 1, vec_z = Finite 0\<rparr>,
          s_v3 = \<lparr>vec_x = Finite 0, vec_y = Finite 1, vec_z = Finite 0\<rparr>\<rparr>],
      halfEdges =
        [\<lparr>h_id = 0, originVertex = 0, targetVertex = 1, h_face = 0,
          h_twin = None, h_next = 1, h_prev = 2\<rparr>,
         \<lparr>h_id = 1, originVertex = 1, targetVertex = 2, h_face = 0,
          h_twin = Some 5, h_next = 2, h_prev = 0\<rparr>,
         \<lparr>h_id = 2, originVertex = 2, targetVertex = 0, h_face = 0,
          h_twin = None, h_next = 0, h_prev = 1\<rparr>,
         \<lparr>h_id = 3, originVertex = 1, targetVertex = 3, h_face = 1,
          h_twin = None, h_next = 4, h_prev = 5\<rparr>,
         \<lparr>h_id = 4, originVertex = 3, targetVertex = 2, h_face = 1,
          h_twin = None, h_next = 5, h_prev = 3\<rparr>,
         \<lparr>h_id = 5, originVertex = 2, targetVertex = 1, h_face = 1,
          h_twin = Some 1, h_next = 3, h_prev = 4\<rparr>],
      edges =
        [\<lparr>w_id = 0, createdStep = None, startVertex = 0, endVertex = 1,
          faceLeft = 0, faceRight = - 1, predLeft = 2, succLeft = 1,
          predRight = - 1, succRight = - 1\<rparr>,
         \<lparr>w_id = 1, createdStep = None, startVertex = 1, endVertex = 2,
          faceLeft = 0, faceRight = 1, predLeft = 0, succLeft = 2,
          predRight = 4, succRight = 3\<rparr>,
         \<lparr>w_id = 2, createdStep = None, startVertex = 0, endVertex = 2,
          faceLeft = - 1, faceRight = 0, predLeft = - 1, succLeft = - 1,
          predRight = 1, succRight = 0\<rparr>,
         \<lparr>w_id = 3, createdStep = None, startVertex = 1, endVertex = 3,
          faceLeft = 1, faceRight = - 1, predLeft = 1, succLeft = 4,
          predRight = - 1, succRight = - 1\<rparr>,
         \<lparr>w_id = 4, createdStep = None, startVertex = 2, endVertex = 3,
          faceLeft = - 1, faceRight = 1, predLeft = - 1, succLeft = - 1,
          predRight = 3, succRight = 1\<rparr>]\<rparr>"

text \<open>What the engine returns on the face \<open>(0,0,0)\<close>.\<close>

definition collapsedMesh :: processedMesh where
  "collapsedMesh =
     \<lparr>vertices =
        [\<lparr>v_id = 0, v_x = Finite 0, v_y = Finite 0, v_z = Finite 0,
          v_incidentEdge = Some 0, v_incidentHalfEdge = Some 2\<rparr>],
      faces =
        [\<lparr>f_id = 0, f_v1 = 0, f_v2 = 0, f_v3 = 0, f_incidentEdge = Some 0,
          f_incidentHalfEdge = Some 2\<rparr>],
      soupTriangles =
        [\<lparr>s_id = 0,
          s_v1 = \<lparr>vec_x = Finite 0, vec_y = Finite 0, vec_z = Finite 0\<rparr>,
          s_v2 = \<lparr>vec_x = Finite 0, vec_y = Finite 0, vec_z = Finite 0\<rparr>,
          s_v3 = \<lparr>vec_x = Finite 0, vec_y = Finite 0, vec_z = Finite 0\<rparr>\<rparr>],
      halfEdges =
        [\<lparr>h_id = 0, originVertex = 0, targetVertex = 0, h_face = 0,
          h_twin = Some 2, h_next = 1, h_prev = 2\<rparr>,
         \<lparr>h_id = 1, originVertex = 0, targetVertex = 0, h_face = 0,
          h_twin = Some 2, h_next = 2, h_prev = 0\<rparr>,
         \<lparr>h_id = 2, originVertex = 0, targetVertex = 0, h_face = 0,
          h_twin = Some 2, h_next = 0, h_prev = 1\<rparr>],
      edges =
        [\<lparr>w_id = 0, createdStep = None, startVertex = 0, endVertex = 0,
          faceLeft = 0, faceRight = - 1, predLeft = 0, succLeft = 0,
          predRight = 0, succRight = 0\<rparr>]\<rparr>"

text \<open>What the engine returns on the face \<open>(0,0,1)\<close>.\<close>

definition sliverMesh :: processedMesh where
  "sliverMesh =
     \<lparr>vertices =
        [\<lparr>v_id = 0, v_x = Finite 0, v_y = Finite 0, v_z = Finite 0,
          v_incidentEdge = Some 1, v_incidentHalfEdge = Some 1\<rparr>,
         \<lparr>v_id = 1, v_x = Finite 1, v_y = Finite 0, v_z = Finite 0,
          v_incidentEdge = Some 1, v_incidentHalfEdge = Some 2\<rparr>],
      faces =
        [\<lparr>f_id = 0, f_v1 = 0, f_v2 = 0, f_v3 = 1, f_incidentEdge = Some 1,
          f_incidentHalfEdge = Some 2\<rparr>],
      soupTriangles =
        [\<lparr>s_id = 0,
          s_v1 = \<lparr>vec_x = Finite 0, vec_y = Finite 0, vec_z = Finite 0\<rparr>,
          s_v2 = \<lparr>vec_x = Finite 0, vec_y = Finite 0, vec_z = Finite 0\<rparr>,
          s_v3 = \<lparr>vec_x = Finite 1, vec_y = Finite 0, vec_z = Finite 0\<rparr>\<rparr>],
      halfEdges =
        [\<lparr>h_id = 0, originVertex = 0, targetVertex = 0, h_face = 0,
          h_twin = Some 0, h_next = 1, h_prev = 2\<rparr>,
         \<lparr>h_id = 1, originVertex = 0, targetVertex = 1, h_face = 0,
          h_twin = Some 2, h_next = 2, h_prev = 0\<rparr>,
         \<lparr>h_id = 2, originVertex = 1, targetVertex = 0, h_face = 0,
          h_twin = Some 1, h_next = 0, h_prev = 1\<rparr>],
      edges =
        [\<lparr>w_id = 0, createdStep = None, startVertex = 0, endVertex = 0,
          faceLeft = 0, faceRight = - 1, predLeft = 1, succLeft = 1,
          predRight = 1, succRight = 1\<rparr>,
         \<lparr>w_id = 1, createdStep = None, startVertex = 0, endVertex = 1,
          faceLeft = 0, faceRight = 0, predLeft = 0, succLeft = 1,
          predRight = 1, succRight = 0\<rparr>]\<rparr>"

text \<open>
  Three doubles: the one nearest to \<open>0.015\<close>, which lies just below it, the one nearest
  to \<open>0.01\<close> and the one nearest to \<open>0.02\<close>.
\<close>

definition double015 :: real where
  "double015 = 8646911284551352 / 2 ^ 59"

definition double001 :: real where
  "double001 = 5764607523034235 / 2 ^ 59"

definition double002 :: real where
  "double002 = 5764607523034235 / 2 ^ 58"

text \<open>
  A face without an index buffer whose three positions have these doubles as their
  first coordinate. The first two lie within half a hundredth of \<open>0.01\<close>, the third
  within half a hundredth of \<open>0.02\<close>; the product of the first with \<open>100\<close> rounds to the
  double \<open>1.5\<close>.
\<close>

definition nearTie :: bufferGeometry where
  "nearTie = \<lparr>position = [double015, 0, 0, double001, 0, 0, double002, 0, 0],
              index = None\<rparr>"

text \<open>
  The geometry of the two triangles without an index buffer: six positions, four of them
  distinct after rounding (\<open>1.001\<close> and \<open>1.004\<close> round to \<open>1\<close>).
\<close>

definition quadSoup :: bufferGeometry where
  "quadSoup = \<lparr>position = [0, 0, 0, 1, 0, 0, 0, 1, 0,
                            1001 / 1000, 0, 0, 1, 1, 0, 0, 1004 / 1000, 0],
               index = None\<rparr>"

text \<open>
  Three faces around the directed edge from vertex 0 to vertex 1: \<open>(0,1,2)\<close> and
  \<open>(0,1,3)\<close> both run along it, \<open>(1,0,2)\<close> runs against it.
\<close>

definition fan :: bufferGeometry where
  "fan = \<lparr>position = [0, 0, 0, 1, 0, 0, 0, 1, 0, 0, 0, 1],
          index = Some [0, 1, 2, 0, 1, 3, 1, 0, 2]\<rparr>"

definition fanMesh :: processedMesh where
  "fanMesh =
     \<lparr>vertices =
        [\<lparr>v_id = 0, v_x = Finite 0, v_y = Finite 0, v_z = Finite 0,
          v_incidentEdge = Some 4, v_incidentHalfEdge = Some 7\<rparr>,
         \<lparr>v_id = 1, v_x = Finite 1, v_y = Finite 0, v_z = Finite 0,
          v_incidentEdge = Some 3, v_incidentHalfEdge = Some 6\<rparr>,
         \<lparr>v_id = 2, v_x = Finite 0, v_y = Finite 1, v_z = Finite 0,
          v_incidentEdge = Some 2, v_incidentHalfEdge = Some 8\<rparr>,
         \<lparr>v_id = 3, v_x = Finite 0, v_y = Finite 0, v_z = Finite 1,
          v_incidentEdge = Some 4, v_incidentHalfEdge = Some 5\<rparr>],
      faces =
        [\<lparr>f_id = 0, f_v1 = 0, f_v2 = 1, f_v3 = 2, f_incidentEdge = Some 2,
          f_incidentHalfEdge = Some 2\<rparr>,
         \<lparr>f_id = 1, f_v1 = 0, f_v2 = 1, f_v3 = 3, f_incidentEdge = Some 4,
          f_incidentHalfEdge = Some 5\<rparr>,
         \<lparr>f_id = 2, f_v1 = 1, f_v2 = 0, f_v3 = 2, f_incidentEdge = Some 2,
          f_incidentHalfEdge = Some 8\<rparr>],
      soupTriangles =
        [\<lparr>s_id = 0,
          s_v1 = \<lparr>vec_x = Finite 0, vec_y = Finite 0, vec_z = Finite 0\<rparr>,
          s_v2 = \<lparr>vec_x = Finite 1, vec_y = Finite 0, vec_z = Finite 0\<rparr>,
          s_v3 = \<lparr>vec_x = Finite 0, vec_y = Finite 1, vec_z = Finite 0\<rparr>\<rparr>,
         \<lparr>s_id = 1,
          s_v1 = \<lparr>vec_x = Finite 0, vec_y = Finite 0, vec_z = Finite 0\<rparr>,
          s_v2 = \<lparr>vec_x = Finite 1, vec_y = Finite 0, vec_z = Finite 0\<rparr>,
          s_v3 = \<lparr>vec_x = Finite 0, vec_y = Finite 0, vec_z = Finite 1\<rparr>\<rparr>,
         \<lparr>s_id = 2,
          s_v1 = \<lparr>vec_x = Finite 1, vec_y = Finite 0, vec_z = Finite 0\<rparr>,
          s_v2 = \<lparr>vec_x = Finite 0, vec_y = Finite 0, vec_z = Finite 0\<rparr>,
          s_v3 = \<lparr>vec_x = Finite 0, vec_y = Finite 1, vec_z = Finite 0\<rparr>\<rparr>],
      halfEdges =
        [\<lparr>h_id = 0, originVertex = 0, targetVertex = 1, h_face = 0,
          h_twin = Some 6, h_next = 1, h_prev = 2\<rparr>,
         \<lparr>h_id = 1, originVertex = 1, targetVertex = 2, h_face = 0,
          h_twin = Some 8, h_next = 2, h_prev = 0\<rparr>,
         \<lparr>h_id = 2, originVertex = 2, targetVertex = 0, h_face = 0,
          h_twin = Some 7, h_next = 0, h_prev = 1\<rparr>,
         \<lparr>h_id = 3, originVertex = 0, targetVertex = 1, h_face = 1,
          h_twin = Some 6, h_next = 4, h_prev = 5\<rparr>,
         \<lparr>h_id = 4, originVertex = 1, targetVertex = 3, h_face = 1,
          h_twin = None, h_next = 5, h_prev = 3\<rparr>,
         \<lparr>h_id = 5, originVertex = 3, targetVertex = 0, h_face = 1,
          h_twin = None, h_next = 3, h_prev = 4\<rparr>,
         \<lparr>h_id = 6, originVertex = 1, targetVertex = 0, h_face = 2,
          h_twin = Some 3, h_next = 7, h_prev = 8\<rparr>,
         \<lparr>h_id = 7, originVertex = 0, targetVertex = 2, h_face = 2,
          h_twin = Some 2, h_next = 8, h_prev = 6\<rparr>,
         \<lparr>h_id = 8, originVertex = 2, targetVertex = 1, h_face = 2,
          h_twin = Some 1, h_next = 6, h_prev = 7\<rparr>],
      edges =
        [\<lparr>w_id = 0, createdStep = None, startVertex = 0, endVertex = 1,
          faceLeft = 1, faceRight = 2, predLeft = 4, succLeft = 3,
          predRight = 1, succRight = 2\<rparr>,
         \<lparr>w_id = 1, createdStep = None, startVertex = 1, endVertex = 2,
          faceLeft = 0, faceRight = 2, predLeft = 0, succLeft = 2,
          predRight = 2, succRight = 0\<rparr>,
         \<lparr>w_id = 2, createdStep = None, startVertex = 0, endVertex = 2,
          faceLeft = 2, faceRight = 0, predLeft = 0, succLeft = 1,
          predRight = 1, succRight = 0\<rparr>,
         \<lparr>w_id = 3, createdStep = None, startVertex = 1, endVertex = 3,
          faceLeft = 1, faceRight = - 1, predLeft = 0, succLeft = 4,
          predRight = - 1, succRight = - 1\<rparr>,
         \<lparr>w_id = 4, createdStep = None, startVertex = 0, endVertex = 3,
          faceLeft = - 1, faceRight = 1, predLeft = - 1, succLeft = - 1,
          predRight = 3, succRight = 0\<rparr>]\<rparr>"

subsection \<open>The invariant of the Vertex Merger\<close>

text \<open>
  The dedup map of the Vertex Merger only holds ids of vertices that exist, and the
  vertex stored under an id carries the coordinates of its key.
\<close>

definition mergerInv :: "mergerState \<Rightarrow> bool" where
  "mergerInv st = (\<forall>k i. snd st k = Some i \<longrightarrow>
      i < length (fst st) \<and> (v_x (fst st ! i), v_y (fst st ! i), v_z (fst st ! i)) = k)"

subsection \<open>The half-edge lists of a geometry\<close>

text \<open>
  The half-edges the engine builds from a geometry, before and after the twin pass;
  the names stand for the local variable \<open>tempHalfEdges\<close> at these two moments.
\<close>

definition tempOf :: "bufferGeometry \<Rightarrow> tempHalfEdge list" where
  "tempOf g = buildTempHalfEdges (buildFaces 0 (fst (mergeVertices g)))"

definition linkedOf :: "bufferGeometry \<Rightarrow> tempHalfEdge list" where
  "linkedOf g = map (linkTwin (buildLookup (tempOf g))) (tempOf g)"

subsection \<open>The first pass of the Winged-Edge Consolidator, taken apart\<close>

text \<open>The state of the first pass after the last half-edge.\<close>

definition firstPassOf :: "bufferGeometry \<Rightarrow> wingedState" where
  "firstPassOf g = fold firstPass (linkedOf g) ([], Map.empty, Map.empty)"

text \<open>The undirected key of a half-edge.\<close>

definition keyOf :: "tempHalfEdge \<Rightarrow> nat \<times> nat" where
  "keyOf he = getEdgeKey (t_origin he) (t_target he)"

text \<open>
  One iteration of the first pass is an allocation (find the winged edge of the key or
  push a new one) followed by the assignment of the half-edge's face to one side;
  \<open>firstPass_split\<close> below shows that \<open>firstPass\<close> is their composition.
\<close>

definition allocate :: "tempHalfEdge \<Rightarrow> wingedState \<Rightarrow> nat \<times> wingedEdgeData list \<times> (nat \<times> nat \<rightharpoonup> nat)" where
  "allocate he st =
     (case fst (snd st) (keyOf he) of
        None \<Rightarrow> (length (fst st), fst st @ [newWingedEdge (length (fst st)) he],
                  (fst (snd st))(keyOf he \<mapsto> length (fst st)))
      | Some found \<Rightarrow> (found, fst st, fst (snd st)))"

definition assignFace :: "tempHalfEdge \<Rightarrow> wingedEdgeData \<Rightarrow> wingedEdgeData" where
  "assignFace he we =
     (if t_origin he = startVertex we then we\<lparr>faceLeft := int (t_face he)\<rparr>
      else we\<lparr>faceRight := int (t_face he)\<rparr>)"

text \<open>The wings of both sides, as the second pass links them.\<close>

definition linkWings ::
  "heLookup \<Rightarrow> tempHalfEdge list \<Rightarrow> (nat \<rightharpoonup> nat) \<Rightarrow> wingedEdgeData \<Rightarrow> wingedEdgeData" where
  "linkWings lk hes heToWeMap we = linkRight lk hes heToWeMap (linkLeft lk hes heToWeMap we)"

text \<open>
  The invariant of the first pass. \<open>edgeKeyToIndex\<close> points at winged edges that exist
  and carry the key as their start and end; every winged edge is registered under its
  own key, has all wings unset, stems from a half-edge with its key, and a face that is
  set on one side comes from a half-edge that runs along that side; the keys of the map
  are the keys of the half-edges seen so far.
\<close>

definition indexInv :: "wingedEdgeData list \<Rightarrow> (nat \<times> nat \<rightharpoonup> nat) \<Rightarrow> bool" where
  "indexInv wes edgeKeyToIndex =
     (\<forall>k i. edgeKeyToIndex k = Some i \<longrightarrow>
        i < length wes \<and> (startVertex (wes ! i), endVertex (wes ! i)) = k)"

definition edgeInv ::
  "tempHalfEdge list \<Rightarrow> (nat \<times> nat \<rightharpoonup> nat) \<Rightarrow> nat \<Rightarrow> wingedEdgeData \<Rightarrow> bool" where
  "edgeInv hes edgeKeyToIndex i we =
     (w_id we = i \<and> createdStep we = None \<and>
      predLeft we = -1 \<and> succLeft we = -1 \<and> predRight we = -1 \<and> succRight we = -1 \<and>
      edgeKeyToIndex (startVertex we, endVertex we) = Some i \<and>
      (\<exists>he\<in>set hes. keyOf he = (startVertex we, endVertex we)) \<and>
      (faceLeft we \<noteq> -1 \<longrightarrow>
         (\<exists>he\<in>set hes. t_origin he = startVertex we \<and> t_target he = endVertex we \<and>
                         faceLeft we = int (t_face he))) \<and>
      (faceRight we \<noteq> -1 \<longrightarrow>
         (\<exists>he\<in>set hes. t_origin he = endVertex we \<and> t_target he = startVertex we \<and>
                         t_origin he \<noteq> startVertex we \<and> faceRight we = int (t_face he))))"

definition wingedInv :: "tempHalfEdge list \<Rightarrow> wingedState \<Rightarrow> bool" where
  "wingedInv hes st =
     (indexInv (fst st) (fst (snd st)) \<and>
      (\<forall>i<length (fst st). edgeInv hes (fst (snd st)) i (fst st ! i)) \<and>
      dom (fst (snd st)) = keyOf ` set hes)"

section \<open>Proofs\<close>

subsection \<open>Double arithmetic\<close>

text \<open>\<open>exponentOf\<close> is the exponent of the power of two at or below a positive number.\<close>

lemma exponentOf_bounds:
  assumes "0 < x"
  shows "twoTo (exponentOf x) \<le> x \<and> x < twoTo (exponentOf x + 1)"
proof (cases "1 \<le> x")
  case True
  define n where "n = \<lfloor>x\<rfloor>"
  have n: "0 < n" using True by (simp add: n_def)
  from bitlen_bounds[OF n] have lo: "2 ^ nat (bitlen n - 1) \<le> n" and hi: "n < 2 ^ nat (bitlen n)"
    by simp_all
  have b: "1 \<le> bitlen n" using n by (simp add: bitlen_alt_def)
  have "real_of_int (2 ^ nat (bitlen n - 1)) \<le> real_of_int n"
    using lo by (simp only: of_int_le_iff)
  then have "(2::real) ^ nat (bitlen n - 1) \<le> real_of_int n" by simp
  moreover have "real_of_int n \<le> x" by (simp add: n_def)
  ultimately have l: "2 ^ nat (bitlen n - 1) \<le> x" by linarith
  have "n + 1 \<le> 2 ^ nat (bitlen n)" using hi by simp
  then have "real_of_int (n + 1) \<le> real_of_int (2 ^ nat (bitlen n))"
    by (simp only: of_int_le_iff)
  then have "real_of_int (n + 1) \<le> (2::real) ^ nat (bitlen n)" by simp
  moreover have "x < real_of_int (n + 1)" by (simp add: n_def)
  ultimately have h: "x < 2 ^ nat (bitlen n)" by linarith
  from l h b True show ?thesis
    by (simp add: exponentOf_def twoTo_def n_def[symmetric])
next
  case False
  define y where "y = 1 / x"
  define n where "n = \<lceil>y\<rceil> - 1"
  have y: "1 < y" using False assms by (simp add: y_def)
  have n: "0 < n" using y by (simp add: n_def less_ceiling_iff)
  from bitlen_bounds[OF n] have lo: "2 ^ nat (bitlen n - 1) \<le> n" and hi: "n < 2 ^ nat (bitlen n)"
    by simp_all
  have b: "1 \<le> bitlen n" using n by (simp add: bitlen_alt_def)
  have ny: "real_of_int n < y" by (simp add: n_def) linarith
  have yn: "y \<le> real_of_int (n + 1)" by (simp add: n_def)
  have "real_of_int (2 ^ nat (bitlen n - 1)) \<le> real_of_int n"
    using lo by (simp only: of_int_le_iff)
  then have "(2::real) ^ nat (bitlen n - 1) \<le> real_of_int n" by simp
  with ny have l: "2 ^ nat (bitlen n - 1) < y" by linarith
  have "n + 1 \<le> 2 ^ nat (bitlen n)" using hi by simp
  then have "real_of_int (n + 1) \<le> real_of_int (2 ^ nat (bitlen n))"
    by (simp only: of_int_le_iff)
  then have "real_of_int (n + 1) \<le> (2::real) ^ nat (bitlen n)" by simp
  with yn have h: "y \<le> 2 ^ nat (bitlen n)" by linarith
  have x: "x = 1 / y" using assms by (simp add: y_def)
  have p1: "1 / 2 ^ nat (bitlen n) \<le> x"
    unfolding x using h y by (simp add: frac_le)
  have p2: "x < 1 / 2 ^ nat (bitlen n - 1)"
    unfolding x using l by (simp add: frac_less2)
  have e: "exponentOf x = - bitlen n"
    using False by (simp add: exponentOf_def n_def y_def)
  have t1: "twoTo (- bitlen n) = 1 / 2 ^ nat (bitlen n)"
    using b by (simp add: twoTo_def)
  have t2: "twoTo (- bitlen n + 1) = 1 / 2 ^ nat (bitlen n - 1)"
  proof (cases "bitlen n = 1")
    case True
    then show ?thesis by (simp add: twoTo_def)
  next
    case False
    with b have neg: "\<not> 0 \<le> - bitlen n + 1" by simp
    have arg: "- (- bitlen n + 1) = bitlen n - 1" by simp
    show ?thesis by (simp only: twoTo_def neg if_False arg)
  qed
  show ?thesis
    unfolding e t1 t2 using p1 p2 by blast
qed

subsection \<open>The helper \<open>r\<close>, evaluated\<close>

lemmas double_arith = toNumber_def timesHundred_def mathRound_def dividedByHundred_def
  roundToDouble_def exponentOf_def compute_bitlen twoTo_def roundHalfEven_def Let_def

lemma r_values:
  "r (Some 0) = Finite 0"
  "r (Some 1) = Finite 1"
  "r (Some (1001 / 1000)) = Finite 1"
  "r (Some (1004 / 1000)) = Finite 1"
  "r (Some (251 / 250)) = Finite 1"
  "r None = NaN"
  by (simp_all add: r_def double_arith)

text \<open>
  The double nearest to \<open>0.015\<close> goes to the double nearest to \<open>0.02\<close>; the other two stay
  where they are. Rounded to two decimals as real numbers, the first two agree and
  the third differs.
\<close>

lemma r_nearTie:
  "r (Some double015) = Finite double002"
  "r (Some double001) = Finite double001"
  "r (Some double002) = Finite double002"
  by (simp_all add: r_def double_arith double015_def double001_def double002_def)

lemma double_distinct:
  "double001 \<noteq> double002" "double002 \<noteq> double001" "double001 \<noteq> 0" "double002 \<noteq> 0"
  by (simp_all add: double001_def double002_def)

lemma roundTwoDecimalsExact_nearTie:
  "roundTwoDecimalsExact double015 = 1 / 100"
  "roundTwoDecimalsExact double001 = 1 / 100"
  "roundTwoDecimalsExact double002 = 2 / 100"
  by (simp_all add: roundTwoDecimalsExact_def double015_def double001_def double002_def)

text \<open>
  Whatever \<open>r\<close> returns that is finite is the double nearest to a whole number of
  hundredths.
\<close>

lemma r_hundredths:
  "r n = NaN \<or> r n = PosInf \<or> r n = NegInf \<or> (\<exists>k::int. r n = roundToDouble (of_int k / 100))"
proof (cases "timesHundred (toNumber n)")
  case (Finite x)
  then have "r n = roundToDouble (of_int \<lfloor>x + 1 / 2\<rfloor> / 100)"
    by (simp add: r_def mathRound_def dividedByHundred_def)
  then show ?thesis by blast
qed (simp_all add: r_def mathRound_def dividedByHundred_def)

subsection \<open>The example geometries, evaluated\<close>

lemma analyzeGeometry_triangle: "analyzeGeometry triangle = Inr triangleMesh"
  unfolding analyzeGeometry_def
  apply (simp add: mergeVertices_def triangle_def bufferOffsets_def getOrAddVertex_def r_values
      element_def Let_def vertexAt_def)
  apply (simp add: buildTempHalfEdges_def faceHalfEdges_def upt_rec)
  apply (simp add: buildLookup_def linkTwin_def)
  apply (simp add: toHalfEdge_def setIncidentHalfEdge_def)
  apply (simp add: firstPass_def getEdgeKey_def newWingedEdge_def Let_def)
  apply (simp add: secondPass_def linkLeft_def linkRight_def setIncidentEdge_def Let_def)
  apply (simp add: triangleMesh_def)
  done

lemma analyzeGeometry_quad: "analyzeGeometry quad = Inr quadMesh"
  unfolding analyzeGeometry_def
  apply (simp add: mergeVertices_def quad_def bufferOffsets_def getOrAddVertex_def r_values
      element_def Let_def vertexAt_def)
  apply (simp add: buildTempHalfEdges_def faceHalfEdges_def upt_rec)
  apply (simp add: buildLookup_def linkTwin_def)
  apply (simp add: toHalfEdge_def setIncidentHalfEdge_def)
  apply (simp add: firstPass_def getEdgeKey_def newWingedEdge_def Let_def)
  apply (simp add: secondPass_def linkLeft_def linkRight_def setIncidentEdge_def Let_def)
  apply (simp add: quadMesh_def)
  done

lemma analyzeGeometry_collapsed: "analyzeGeometry collapsed = Inr collapsedMesh"
  unfolding analyzeGeometry_def
  apply (simp add: mergeVertices_def collapsed_def bufferOffsets_def getOrAddVertex_def r_values
      element_def Let_def vertexAt_def)
  apply (simp add: buildTempHalfEdges_def faceHalfEdges_def upt_rec)
  apply (simp add: buildLookup_def linkTwin_def)
  apply (simp add: toHalfEdge_def setIncidentHalfEdge_def)
  apply (simp add: firstPass_def getEdgeKey_def newWingedEdge_def Let_def)
  apply (simp add: secondPass_def linkLeft_def linkRight_def setIncidentEdge_def Let_def)
  apply (simp add: collapsedMesh_def)
  done

lemma analyzeGeometry_sliver: "analyzeGeometry sliver = Inr sliverMesh"
  unfolding analyzeGeometry_def
  apply (simp add: mergeVertices_def sliver_def bufferOffsets_def getOrAddVertex_def r_values
      element_def Let_def vertexAt_def)
  apply (simp add: buildTempHalfEdges_def faceHalfEdges_def upt_rec)
  apply (simp add: buildLookup_def linkTwin_def)
  apply (simp add: toHalfEdge_def setIncidentHalfEdge_def)
  apply (simp add: firstPass_def getEdgeKey_def newWingedEdge_def Let_def)
  apply (simp add: secondPass_def linkLeft_def linkRight_def setIncidentEdge_def Let_def)
  apply (simp add: sliverMesh_def)
  done

lemma analyzeGeometry_quadSoup: "analyzeGeometry quadSoup = Inr quadMesh"
  unfolding analyzeGeometry_def
  apply (simp add: mergeVertices_def quadSoup_def bufferOffsets_def getOrAddVertex_def r_values
      element_def Let_def vertexAt_def upt_rec)
  apply (simp add: buildTempHalfEdges_def faceHalfEdges_def upt_rec)
  apply (simp add: buildLookup_def linkTwin_def)
  apply (simp add: toHalfEdge_def setIncidentHalfEdge_def)
  apply (simp add: firstPass_def getEdgeKey_def newWingedEdge_def Let_def)
  apply (simp add: secondPass_def linkLeft_def linkRight_def setIncidentEdge_def Let_def)
  apply (simp add: quadMesh_def)
  done

lemma analyzeGeometry_fan: "analyzeGeometry fan = Inr fanMesh"
  unfolding analyzeGeometry_def
  apply (simp add: mergeVertices_def fan_def bufferOffsets_def getOrAddVertex_def r_values
      element_def Let_def vertexAt_def)
  apply (simp add: buildTempHalfEdges_def faceHalfEdges_def upt_rec)
  apply (simp add: buildLookup_def linkTwin_def)
  apply (simp add: toHalfEdge_def setIncidentHalfEdge_def)
  apply (simp add: firstPass_def getEdgeKey_def newWingedEdge_def Let_def)
  apply (simp add: secondPass_def linkLeft_def linkRight_def setIncidentEdge_def Let_def)
  apply (simp add: fanMesh_def)
  done

lemma mergeVertices_quadSoup: "fst (mergeVertices quadSoup) = [0, 1, 2, 1, 3, 2]"
  by (simp add: mergeVertices_def quadSoup_def bufferOffsets_def getOrAddVertex_def r_values
      element_def Let_def upt_rec)

lemma mergeVertices_nearTie: "fst (mergeVertices nearTie) = [0, 1, 0]"
  by (simp add: mergeVertices_def nearTie_def bufferOffsets_def getOrAddVertex_def r_values
      r_nearTie double_distinct element_def Let_def upt_rec)

subsection \<open>Vertex Merger\<close>

lemma mergerInv_empty: "mergerInv ([], Map.empty)"
  by (simp add: mergerInv_def)

lemma getOrAddVertex_step:
  assumes "mergerInv st" and "getOrAddVertex positions pIdx st = (i, st')"
  shows "mergerInv st' \<and> snd st' (roundedKey positions pIdx) = Some i \<and> snd st \<subseteq>\<^sub>m snd st'"
proof (cases "snd st (roundedKey positions pIdx)")
  case (Some found)
  with assms show ?thesis
    by (simp add: getOrAddVertex_def roundedKey_def Let_def)
next
  case None
  with assms(2) have st': "st' = (fst st @ [\<lparr>v_id = length (fst st),
        v_x = r (element positions pIdx), v_y = r (element positions (pIdx + 1)),
        v_z = r (element positions (pIdx + 2)),
        v_incidentEdge = None, v_incidentHalfEdge = None\<rparr>],
        (snd st)(roundedKey positions pIdx \<mapsto> length (fst st)))"
    and i: "i = length (fst st)"
    by (auto simp add: getOrAddVertex_def roundedKey_def Let_def)
  have "mergerInv st'"
    unfolding mergerInv_def
  proof (intro allI impI)
    fix k n assume "snd st' k = Some n"
    then consider "k = roundedKey positions pIdx" "n = length (fst st)"
      | "k \<noteq> roundedKey positions pIdx" "snd st k = Some n"
      by (auto simp add: st' split: if_splits)
    then show "n < length (fst st') \<and> (v_x (fst st' ! n), v_y (fst st' ! n), v_z (fst st' ! n)) = k"
    proof cases
      case 1
      then show ?thesis by (simp add: st' roundedKey_def)
    next
      case 2
      with assms(1) have "n < length (fst st) \<and> (v_x (fst st ! n), v_y (fst st ! n), v_z (fst st ! n)) = k"
        unfolding mergerInv_def by blast
      then show ?thesis by (simp add: st' nth_append)
    qed
  qed
  moreover have "snd st \<subseteq>\<^sub>m snd st'"
    using None by (auto simp add: st' map_le_def)
  ultimately show ?thesis by (simp add: st' i)
qed

lemma mergeAll_keys:
  assumes "mergerInv st" and "mergeAll positions offs st = (ids, st')"
  shows "mergerInv st' \<and> snd st \<subseteq>\<^sub>m snd st' \<and> length ids = length offs \<and>
         (\<forall>n<length offs. snd st' (roundedKey positions (offs ! n)) = Some (ids ! n))"
  using assms
proof (induction offs arbitrary: st ids st')
  case Nil
  then show ?case by simp
next
  case (Cons p rest)
  obtain i st1 where g: "getOrAddVertex positions p st = (i, st1)"
    by (cases "getOrAddVertex positions p st")
  obtain vids st2 where m: "mergeAll positions rest st1 = (vids, st2)"
    by (cases "mergeAll positions rest st1")
  from Cons.prems(2) g m have ids: "ids = i # vids" and st': "st' = st2"
    by simp_all
  from getOrAddVertex_step[OF Cons.prems(1) g]
  have inv1: "mergerInv st1" and k1: "snd st1 (roundedKey positions p) = Some i"
    and le1: "snd st \<subseteq>\<^sub>m snd st1" by simp_all
  from Cons.IH[OF inv1 m]
  have inv2: "mergerInv st2" and le2: "snd st1 \<subseteq>\<^sub>m snd st2" and len: "length vids = length rest"
    and keys: "\<forall>n<length rest. snd st2 (roundedKey positions (rest ! n)) = Some (vids ! n)"
    by simp_all
  have k2: "snd st2 (roundedKey positions p) = Some i"
    using k1 le2 unfolding map_le_def by (metis domI)
  have "\<forall>n<length (p # rest). snd st2 (roundedKey positions ((p # rest) ! n)) = Some ((i # vids) ! n)"
  proof (intro allI impI)
    fix n assume "n < length (p # rest)"
    then show "snd st2 (roundedKey positions ((p # rest) ! n)) = Some ((i # vids) ! n)"
      using k2 keys by (cases n) simp_all
  qed
  then show ?case
    using inv2 le1 le2 len by (simp add: ids st' map_le_trans)
qed

text \<open>
  Claim C1, amended. Take any two calls of the Vertex Merger, the \<open>i\<close>-th and the \<open>j\<close>-th
  of a run (for an indexed geometry on the offsets \<open>rawIndices[i] * 3\<close>, otherwise on
  \<open>i * 3\<close>). The two calls return the same vertex id exactly when the three coordinates
  read at the two offsets are equal after the engine's own rounding
  \<open>r(n) = Math.round(n * 100) / 100\<close>, computed on doubles: equal results give the same id,
  a difference in any of them gives different ids. The merger returns one id per call,
  and the vertex stored under the id carries the rounded coordinates. With rounding
  to two decimals read on the numbers themselves the claim fails for doubles next to a
  tie: the product \<open>n * 100\<close> is rounded to a double before \<open>Math.round\<close> sees it.
\<close>

theorem C1_dedup_amended:
  assumes "i < length (bufferOffsets g)" and "j < length (bufferOffsets g)"
  shows "length (fst (mergeVertices g)) = length (bufferOffsets g) \<and>
         (fst (mergeVertices g) ! i = fst (mergeVertices g) ! j \<longleftrightarrow>
          roundedKey (position g) (bufferOffsets g ! i) = roundedKey (position g) (bufferOffsets g ! j)) \<and>
         fst (mergeVertices g) ! i < length (fst (snd (mergeVertices g))) \<and>
         (v_x (fst (snd (mergeVertices g)) ! (fst (mergeVertices g) ! i)),
          v_y (fst (snd (mergeVertices g)) ! (fst (mergeVertices g) ! i)),
          v_z (fst (snd (mergeVertices g)) ! (fst (mergeVertices g) ! i))) =
         roundedKey (position g) (bufferOffsets g ! i)"
proof -
  obtain ids st where m: "mergeAll (position g) (bufferOffsets g) ([], Map.empty) = (ids, st)"
    by (cases "mergeAll (position g) (bufferOffsets g) ([], Map.empty)")
  from mergeAll_keys[OF mergerInv_empty m]
  have inv: "mergerInv st" and len: "length ids = length (bufferOffsets g)"
    and keys: "\<forall>n<length (bufferOffsets g). snd st (roundedKey (position g) (bufferOffsets g ! n)) = Some (ids ! n)"
    by simp_all
  have ki: "snd st (roundedKey (position g) (bufferOffsets g ! i)) = Some (ids ! i)"
    and kj: "snd st (roundedKey (position g) (bufferOffsets g ! j)) = Some (ids ! j)"
    using keys assms by simp_all
  from inv ki have vi: "ids ! i < length (fst st) \<and>
      (v_x (fst st ! (ids ! i)), v_y (fst st ! (ids ! i)), v_z (fst st ! (ids ! i)))
        = roundedKey (position g) (bufferOffsets g ! i)"
    unfolding mergerInv_def by blast
  from inv kj have vj: "(v_x (fst st ! (ids ! j)), v_y (fst st ! (ids ! j)), v_z (fst st ! (ids ! j)))
        = roundedKey (position g) (bufferOffsets g ! j)"
    unfolding mergerInv_def by blast
  have "ids ! i = ids ! j \<longleftrightarrow>
        roundedKey (position g) (bufferOffsets g ! i) = roundedKey (position g) (bufferOffsets g ! j)"
  proof
    assume e: "ids ! i = ids ! j"
    with vi vj show "roundedKey (position g) (bufferOffsets g ! i) = roundedKey (position g) (bufferOffsets g ! j)"
      by simp
  next
    assume "roundedKey (position g) (bufferOffsets g ! i) = roundedKey (position g) (bufferOffsets g ! j)"
    with ki kj show "ids ! i = ids ! j" by simp
  qed
  then show ?thesis
    using len vi by (simp add: mergeVertices_def m)
qed

theorem C1_dedup_amended_witness:
  "(1::nat) < length (bufferOffsets quadSoup) \<and> (3::nat) < length (bufferOffsets quadSoup) \<and>
   length (fst (mergeVertices quadSoup)) = length (bufferOffsets quadSoup) \<and>
   (fst (mergeVertices quadSoup) ! 1 = fst (mergeVertices quadSoup) ! 3 \<longleftrightarrow>
    roundedKey (position quadSoup) (bufferOffsets quadSoup ! 1) =
    roundedKey (position quadSoup) (bufferOffsets quadSoup ! 3)) \<and>
   fst (mergeVertices quadSoup) ! 1 = 1 \<and> fst (mergeVertices quadSoup) ! 3 = 1 \<and>
   roundedKey (position quadSoup) (bufferOffsets quadSoup ! 1) = (Finite 1, Finite 0, Finite 0) \<and>
   (v_x (fst (snd (mergeVertices quadSoup)) ! 1), v_y (fst (snd (mergeVertices quadSoup)) ! 1),
    v_z (fst (snd (mergeVertices quadSoup)) ! 1)) = (Finite 1, Finite 0, Finite 0)"
proof -
  have len: "length (bufferOffsets quadSoup) = 6"
    by (simp add: bufferOffsets_def quadSoup_def)
  have k: "roundedKey (position quadSoup) (bufferOffsets quadSoup ! 1) = (Finite 1, Finite 0, Finite 0)"
    by (simp add: roundedKey_def bufferOffsets_def quadSoup_def r_values element_def upt_rec)
  have k': "roundedKey (position quadSoup) (bufferOffsets quadSoup ! 3) = (Finite 1, Finite 0, Finite 0)"
    by (simp add: roundedKey_def bufferOffsets_def quadSoup_def r_values element_def upt_rec)
  show ?thesis
    using C1_dedup_amended [of 1 quadSoup 3] unfolding k k' by (simp add: len mergeVertices_quadSoup)
qed

text \<open>
  On \<open>nearTie\<close> the first two positions round to the same two decimals, \<open>(0.01, 0, 0)\<close>,
  and get different ids; the first and the third round to different two decimals and
  get the same id.
\<close>

theorem C1_dedup_counterexample:
  "bufferOffsets nearTie = [0, 3, 6] \<and>
   map roundTwoDecimalsExact (position nearTie) = [1 / 100, 0, 0, 1 / 100, 0, 0, 2 / 100, 0, 0] \<and>
   fst (mergeVertices nearTie) = [0, 1, 0] \<and>
   fst (mergeVertices nearTie) ! 0 \<noteq> fst (mergeVertices nearTie) ! 1 \<and>
   fst (mergeVertices nearTie) ! 0 = fst (mergeVertices nearTie) ! 2"
proof -
  have "bufferOffsets nearTie = [0, 3, 6]"
    by (simp add: bufferOffsets_def nearTie_def upt_rec)
  moreover have "map roundTwoDecimalsExact (position nearTie) =
      [1 / 100, 0, 0, 1 / 100, 0, 0, 2 / 100, 0, 0]"
    by (simp add: nearTie_def roundTwoDecimalsExact_nearTie) (simp add: roundTwoDecimalsExact_def)
  ultimately show ?thesis
    by (simp add: mergeVertices_nearTie)
qed

subsection \<open>Half-Edge Builder: identifiers, next and prev\<close>

lemma halfEdges_analyzeGeometry:
  "analyzeGeometry g = Inr m \<Longrightarrow> halfEdges m = map toHalfEdge (linkedOf g)"
  by (auto simp add: analyzeGeometry_def linkedOf_def tempOf_def Let_def
      split: prod.splits sum.splits)

lemma buildFaces_id:
  "j < length (buildFaces k xs) \<Longrightarrow> f_id (buildFaces k xs ! j) = k + j"
proof (induction k xs arbitrary: j rule: buildFaces.induct)
  case (1 k a b c rest)
  then show ?case by (cases j) simp_all
qed simp_all

lemma concat_triples:
  assumes "\<forall>xs\<in>set xss. length xs = 3"
  shows "length (concat xss) = 3 * length xss"
    and "q < length xss \<Longrightarrow> i < 3 \<Longrightarrow> concat xss ! (3 * q + i) = xss ! q ! i"
  using assms
proof (induction xss arbitrary: q)
  case Nil
  { case 1 show ?case by simp }
  { case 2 then show ?case by simp }
next
  case (Cons xs xss)
  { case 1 then show ?case using Cons.IH(1) by simp }
  { case 2
    then have len: "length xs = 3" and rest: "\<forall>ys\<in>set xss. length ys = 3" by simp_all
    show ?case
    proof (cases q)
      case 0
      with 2 len show ?thesis by (simp add: nth_append)
    next
      case (Suc q')
      with 2 have "q' < length xss" by simp
      from Cons.IH(2)[OF this 2(2) rest] Suc len show ?thesis
        by (simp add: nth_append)
    qed }
qed

lemma length_faceHalfEdges: "length (faceHalfEdges f) = 3"
  by (simp add: faceHalfEdges_def Let_def)

lemma faceHalfEdges_nth:
  "i < 3 \<Longrightarrow> faceHalfEdges f ! i =
     \<lparr>t_id = f_id f * 3 + i, t_origin = [f_v1 f, f_v2 f, f_v3 f] ! i,
      t_target = [f_v1 f, f_v2 f, f_v3 f] ! ((i + 1) mod 3), t_face = f_id f,
      t_next = f_id f * 3 + ((i + 1) mod 3), t_prev = f_id f * 3 + ((i + 2) mod 3),
      t_twin = None\<rparr>"
  by (simp add: faceHalfEdges_def Let_def)

lemma length_tempOf: "length (tempOf g) = 3 * length (buildFaces 0 (fst (mergeVertices g)))"
  using concat_triples(1)[of "map faceHalfEdges (buildFaces 0 (fst (mergeVertices g)))"]
  by (simp add: tempOf_def buildTempHalfEdges_def length_faceHalfEdges)

lemma tempOf_nth:
  assumes "q < length (buildFaces 0 (fst (mergeVertices g)))" and "i < 3"
  shows "t_id (tempOf g ! (3 * q + i)) = 3 * q + i"
    and "t_face (tempOf g ! (3 * q + i)) = q"
    and "t_next (tempOf g ! (3 * q + i)) = 3 * q + (i + 1) mod 3"
    and "t_prev (tempOf g ! (3 * q + i)) = 3 * q + (i + 2) mod 3"
proof -
  let ?fs = "buildFaces 0 (fst (mergeVertices g))"
  have "tempOf g ! (3 * q + i) = map faceHalfEdges ?fs ! q ! i"
    unfolding tempOf_def buildTempHalfEdges_def
    using assms by (intro concat_triples(2)) (simp_all add: length_faceHalfEdges)
  then have e: "tempOf g ! (3 * q + i) = faceHalfEdges (?fs ! q) ! i"
    using assms by simp
  have fid: "f_id (?fs ! q) = q"
    using buildFaces_id[OF assms(1)] by simp
  show "t_id (tempOf g ! (3 * q + i)) = 3 * q + i"
    and "t_face (tempOf g ! (3 * q + i)) = q"
    and "t_next (tempOf g ! (3 * q + i)) = 3 * q + (i + 1) mod 3"
    and "t_prev (tempOf g ! (3 * q + i)) = 3 * q + (i + 2) mod 3"
    using assms(2) by (simp_all add: e faceHalfEdges_nth fid)
qed

lemma linkTwin_fields [simp]:
  "t_id (linkTwin lk he) = t_id he" "t_origin (linkTwin lk he) = t_origin he"
  "t_target (linkTwin lk he) = t_target he" "t_face (linkTwin lk he) = t_face he"
  "t_next (linkTwin lk he) = t_next he" "t_prev (linkTwin lk he) = t_prev he"
  by (simp_all add: linkTwin_def split: option.splits)

lemma toHalfEdge_fields [simp]:
  "h_id (toHalfEdge he) = t_id he" "originVertex (toHalfEdge he) = t_origin he"
  "targetVertex (toHalfEdge he) = t_target he" "h_face (toHalfEdge he) = t_face he"
  "h_next (toHalfEdge he) = t_next he" "h_prev (toHalfEdge he) = t_prev he"
  "h_twin (toHalfEdge he) = t_twin he"
  by (simp_all add: toHalfEdge_def)

text \<open>Every half-edge of the output sits at the index that is its id.\<close>

lemma halfEdges_shape:
  assumes "analyzeGeometry g = Inr m" and "n < length (halfEdges m)"
  shows "h_id (halfEdges m ! n) = n"
    and "h_face (halfEdges m ! n) = n div 3"
    and "h_next (halfEdges m ! n) = 3 * (n div 3) + (n mod 3 + 1) mod 3"
    and "h_prev (halfEdges m ! n) = 3 * (n div 3) + (n mod 3 + 2) mod 3"
    and "3 * (n div 3) + 3 \<le> length (halfEdges m)"
proof -
  let ?fs = "buildFaces 0 (fst (mergeVertices g))"
  have hs: "halfEdges m = map toHalfEdge (linkedOf g)"
    by (rule halfEdges_analyzeGeometry[OF assms(1)])
  have len: "length (halfEdges m) = 3 * length ?fs"
    by (simp add: hs linkedOf_def length_tempOf)
  have q: "n div 3 < length ?fs" and i: "n mod 3 < 3" and n: "3 * (n div 3) + n mod 3 = n"
    using assms(2) len by simp_all
  have nth: "halfEdges m ! n = toHalfEdge (linkTwin (buildLookup (tempOf g)) (tempOf g ! n))"
    using assms(2) by (simp add: hs linkedOf_def)
  from tempOf_nth[OF q i, unfolded n]
  show "h_id (halfEdges m ! n) = n"
    and "h_face (halfEdges m ! n) = n div 3"
    and "h_next (halfEdges m ! n) = 3 * (n div 3) + (n mod 3 + 1) mod 3"
    and "h_prev (halfEdges m ! n) = 3 * (n div 3) + (n mod 3 + 2) mod 3"
    by (simp_all add: nth)
  show "3 * (n div 3) + 3 \<le> length (halfEdges m)"
    using q len by simp
qed


lemma halfEdges_cycle:
  assumes "analyzeGeometry g = Inr m" and "Suc (Suc (3 * q)) < length (halfEdges m)"
  shows "h_next (halfEdges m ! (3 * q)) = Suc (3 * q)"
    and "h_next (halfEdges m ! Suc (3 * q)) = Suc (Suc (3 * q))"
    and "h_next (halfEdges m ! Suc (Suc (3 * q))) = 3 * q"
    and "h_prev (halfEdges m ! (3 * q)) = Suc (Suc (3 * q))"
    and "h_prev (halfEdges m ! Suc (3 * q)) = 3 * q"
    and "h_prev (halfEdges m ! Suc (Suc (3 * q))) = Suc (3 * q)"
    and "h_face (halfEdges m ! (3 * q)) = q"
    and "h_face (halfEdges m ! Suc (3 * q)) = q"
    and "h_face (halfEdges m ! Suc (Suc (3 * q))) = q"
proof -
  have a: "3 * q < length (halfEdges m)" and b: "Suc (3 * q) < length (halfEdges m)"
    using assms(2) by simp_all
  have d: "(3 * q) div 3 = q" "Suc (3 * q) div 3 = q" "Suc (Suc (3 * q)) div 3 = q"
    and r: "(3 * q) mod 3 = 0" "Suc (3 * q) mod 3 = 1" "Suc (Suc (3 * q)) mod 3 = 2"
    by presburger+
  show "h_next (halfEdges m ! (3 * q)) = Suc (3 * q)"
    and "h_prev (halfEdges m ! (3 * q)) = Suc (Suc (3 * q))"
    and "h_face (halfEdges m ! (3 * q)) = q"
    using halfEdges_shape(2,3,4)[OF assms(1) a] by (simp_all only: d r, simp_all)
  show "h_next (halfEdges m ! Suc (3 * q)) = Suc (Suc (3 * q))"
    and "h_prev (halfEdges m ! Suc (3 * q)) = 3 * q"
    and "h_face (halfEdges m ! Suc (3 * q)) = q"
    using halfEdges_shape(2,3,4)[OF assms(1) b] by (simp_all only: d r, simp_all)
  show "h_next (halfEdges m ! Suc (Suc (3 * q))) = 3 * q"
    and "h_prev (halfEdges m ! Suc (Suc (3 * q))) = Suc (3 * q)"
    and "h_face (halfEdges m ! Suc (Suc (3 * q))) = q"
    using halfEdges_shape(2,3,4)[OF assms(1) assms(2)] by (simp_all only: d r, simp_all)
qed

text \<open>
  Claim C3. For every half-edge \<open>h\<close> of the output, \<open>next\<close> and \<open>prev\<close> are ids of
  half-edges of the output that lie on the face of \<open>h\<close>; following \<open>next\<close> three times
  from \<open>h\<close> returns to \<open>h\<close>; and \<open>prev\<close> then \<open>next\<close>, or \<open>next\<close> then \<open>prev\<close>, is
  the identity.
\<close>

theorem C3_closure:
  assumes "analyzeGeometry g = Inr m" and "h \<in> set (halfEdges m)"
  shows "h_next h < length (halfEdges m) \<and> h_prev h < length (halfEdges m) \<and>
         h_face (halfEdges m ! h_next h) = h_face h \<and>
         h_face (halfEdges m ! h_prev h) = h_face h \<and>
         halfEdges m ! h_next (halfEdges m ! h_next (halfEdges m ! h_next h)) = h \<and>
         halfEdges m ! h_next (halfEdges m ! h_prev h) = h \<and>
         halfEdges m ! h_prev (halfEdges m ! h_next h) = h"
proof -
  from assms(2) obtain n where n: "n < length (halfEdges m)" and h: "h = halfEdges m ! n"
    by (auto simp add: in_set_conv_nth)
  define q where "q = n div 3"
  have top: "Suc (Suc (3 * q)) < length (halfEdges m)"
    using halfEdges_shape(5)[OF assms(1) n] by (simp add: q_def)
  note c = halfEdges_cycle[OF assms(1) top]
  have "n mod 3 = 0 \<or> n mod 3 = 1 \<or> n mod 3 = 2" by arith
  moreover have "n = 3 * q + n mod 3" by (simp add: q_def)
  ultimately consider "n = 3 * q" | "n = Suc (3 * q)" | "n = Suc (Suc (3 * q))"
    by (elim disjE) simp_all
  then show ?thesis
  proof cases
    case 1
    with top show ?thesis unfolding h by (simp add: c)
  next
    case 2
    with top show ?thesis unfolding h by (simp add: c)
  next
    case 3
    with top show ?thesis unfolding h by (simp add: c)
  qed
qed

theorem C3_closure_witness:
  "analyzeGeometry quad = Inr quadMesh \<and> halfEdges quadMesh ! 4 \<in> set (halfEdges quadMesh) \<and>
   h_next (halfEdges quadMesh ! 4) = 5 \<and> h_prev (halfEdges quadMesh ! 4) = 3 \<and>
   h_next (halfEdges quadMesh ! 4) < length (halfEdges quadMesh) \<and>
   h_prev (halfEdges quadMesh ! 4) < length (halfEdges quadMesh) \<and>
   h_face (halfEdges quadMesh ! h_next (halfEdges quadMesh ! 4)) = h_face (halfEdges quadMesh ! 4) \<and>
   h_face (halfEdges quadMesh ! h_prev (halfEdges quadMesh ! 4)) = h_face (halfEdges quadMesh ! 4) \<and>
   halfEdges quadMesh ! h_next (halfEdges quadMesh ! h_next (halfEdges quadMesh !
      h_next (halfEdges quadMesh ! 4))) = halfEdges quadMesh ! 4 \<and>
   halfEdges quadMesh ! h_next (halfEdges quadMesh ! h_prev (halfEdges quadMesh ! 4)) =
      halfEdges quadMesh ! 4 \<and>
   halfEdges quadMesh ! h_prev (halfEdges quadMesh ! h_next (halfEdges quadMesh ! 4)) =
      halfEdges quadMesh ! 4"
proof -
  have mem: "halfEdges quadMesh ! 4 \<in> set (halfEdges quadMesh)"
    by (simp add: quadMesh_def)
  have vals: "h_next (halfEdges quadMesh ! 4) = 5" "h_prev (halfEdges quadMesh ! 4) = 3"
    by (simp_all add: quadMesh_def)
  from C3_closure [OF analyzeGeometry_quad mem] analyzeGeometry_quad mem vals
  show ?thesis by blast
qed

subsection \<open>Half-Edge Builder: the twin pass\<close>

lemma buildLookup_snoc:
  "buildLookup (hes @ [he]) = (buildLookup hes)((t_origin he, t_target he) \<mapsto> t_id he)"
  by (simp add: buildLookup_def)

lemma buildLookup_Some:
  "buildLookup hes k = Some t \<Longrightarrow> \<exists>he\<in>set hes. (t_origin he, t_target he) = k \<and> t_id he = t"
proof (induction hes arbitrary: t rule: rev_induct)
  case Nil
  then show ?case by (simp add: buildLookup_def)
next
  case (snoc he hes)
  then show ?case
    by (cases "k = (t_origin he, t_target he)") (auto simp add: buildLookup_snoc)
qed

lemma buildLookup_member:
  "he \<in> set hes \<Longrightarrow> buildLookup hes (t_origin he, t_target he) \<noteq> None"
proof (induction hes rule: rev_induct)
  case Nil
  then show ?case by simp
next
  case (snoc x hes)
  then show ?case by (auto simp add: buildLookup_snoc)
qed

lemma buildLookup_last:
  assumes "\<forall>y\<in>set ys. (t_origin y, t_target y) \<noteq> (t_origin he, t_target he)"
  shows "buildLookup (xs @ he # ys) (t_origin he, t_target he) = Some (t_id he)"
  using assms
proof (induction ys rule: rev_induct)
  case Nil
  show ?case by (simp add: buildLookup_snoc)
next
  case (snoc y ys)
  have "buildLookup (xs @ he # ys @ [y]) = (buildLookup (xs @ he # ys))((t_origin y, t_target y) \<mapsto> t_id y)"
    using buildLookup_snoc[of "xs @ he # ys" y] by simp
  with snoc show ?case by auto
qed

text \<open>The lookup built from the unlinked half-edges of a geometry.\<close>

lemma tempOf_id:
  assumes "n < length (tempOf g)"
  shows "t_id (tempOf g ! n) = n"
proof -
  have q: "n div 3 < length (buildFaces 0 (fst (mergeVertices g)))"
    using assms by (simp add: length_tempOf)
  have "t_id (tempOf g ! (3 * (n div 3) + n mod 3)) = 3 * (n div 3) + n mod 3"
    by (rule tempOf_nth(1)[OF q]) simp
  then show ?thesis by simp
qed

lemma lookup_tempOf_Some:
  assumes "buildLookup (tempOf g) k = Some t"
  shows "t < length (tempOf g) \<and> (t_origin (tempOf g ! t), t_target (tempOf g ! t)) = k"
proof -
  from buildLookup_Some[OF assms] obtain he where
    he: "he \<in> set (tempOf g)" "(t_origin he, t_target he) = k" "t_id he = t" by blast
  from he(1) obtain n where n: "n < length (tempOf g)" "he = tempOf g ! n"
    by (auto simp add: in_set_conv_nth)
  with he(3) tempOf_id[OF n(1)] have "n = t" by simp
  with n he(2) show ?thesis by simp
qed

lemma lookup_tempOf_last:
  assumes "n < length (tempOf g)"
    and "\<forall>n'. n < n' \<and> n' < length (tempOf g) \<longrightarrow>
           (t_origin (tempOf g ! n'), t_target (tempOf g ! n')) \<noteq>
           (t_origin (tempOf g ! n), t_target (tempOf g ! n))"
  shows "buildLookup (tempOf g) (t_origin (tempOf g ! n), t_target (tempOf g ! n)) = Some n"
proof -
  let ?he = "tempOf g ! n"
  have split: "tempOf g = take n (tempOf g) @ ?he # drop (Suc n) (tempOf g)"
    using assms(1) by (rule id_take_nth_drop)
  have "\<forall>y\<in>set (drop (Suc n) (tempOf g)). (t_origin y, t_target y) \<noteq> (t_origin ?he, t_target ?he)"
  proof
    fix y assume "y \<in> set (drop (Suc n) (tempOf g))"
    then obtain j where j: "j < length (drop (Suc n) (tempOf g))" "y = drop (Suc n) (tempOf g) ! j"
      by (auto simp add: in_set_conv_nth)
    then have "y = tempOf g ! (Suc n + j)" and "Suc n + j < length (tempOf g)"
      using assms(1) by simp_all
    with assms(2) show "(t_origin y, t_target y) \<noteq> (t_origin ?he, t_target ?he)"
      by simp
  qed
  from buildLookup_last[OF this, of "take n (tempOf g)"] split tempOf_id[OF assms(1)]
  show ?thesis by simp
qed

lemma linkedOf_twin:
  assumes "n < length (tempOf g)"
  shows "t_twin (linkedOf g ! n) =
         buildLookup (tempOf g) (t_target (tempOf g ! n), t_origin (tempOf g ! n))"
proof -
  have "t_twin (tempOf g ! n) = None"
  proof -
    have q: "n div 3 < length (buildFaces 0 (fst (mergeVertices g)))"
      using assms by (simp add: length_tempOf)
    have "tempOf g ! (3 * (n div 3) + n mod 3) =
          map faceHalfEdges (buildFaces 0 (fst (mergeVertices g))) ! (n div 3) ! (n mod 3)"
      unfolding tempOf_def buildTempHalfEdges_def
      using q by (intro concat_triples(2)) (simp_all add: length_faceHalfEdges)
    then show ?thesis using q by (simp add: faceHalfEdges_nth)
  qed
  then show ?thesis
    using assms by (simp add: linkedOf_def linkTwin_def split: option.splits)
qed


lemma halfEdges_nth_temp:
  assumes "analyzeGeometry g = Inr m"
  shows "length (halfEdges m) = length (tempOf g)"
    and "n < length (halfEdges m) \<Longrightarrow> originVertex (halfEdges m ! n) = t_origin (tempOf g ! n)"
    and "n < length (halfEdges m) \<Longrightarrow> targetVertex (halfEdges m ! n) = t_target (tempOf g ! n)"
    and "n < length (halfEdges m) \<Longrightarrow> h_twin (halfEdges m ! n) =
           buildLookup (tempOf g) (t_target (tempOf g ! n), t_origin (tempOf g ! n))"
proof -
  have hs: "halfEdges m = map toHalfEdge (linkedOf g)"
    by (rule halfEdges_analyzeGeometry[OF assms])
  show len: "length (halfEdges m) = length (tempOf g)"
    by (simp add: hs linkedOf_def)
  show "n < length (halfEdges m) \<Longrightarrow> originVertex (halfEdges m ! n) = t_origin (tempOf g ! n)"
    and "n < length (halfEdges m) \<Longrightarrow> targetVertex (halfEdges m ! n) = t_target (tempOf g ! n)"
    by (simp_all add: hs linkedOf_def)
  assume n: "n < length (halfEdges m)"
  then have "h_twin (halfEdges m ! n) = t_twin (linkedOf g ! n)"
    by (simp add: hs linkedOf_def)
  also have "\<dots> = buildLookup (tempOf g) (t_target (tempOf g ! n), t_origin (tempOf g ! n))"
    using n len by (intro linkedOf_twin) simp
  finally show "h_twin (halfEdges m ! n) =
           buildLookup (tempOf g) (t_target (tempOf g ! n), t_origin (tempOf g ! n))" .
qed

text \<open>
  The twin of a half-edge is a half-edge of the opposite direction, and the twin of
  that one is the last half-edge with the first one's origin and target.
\<close>

lemma twin_of_twin:
  assumes ok: "analyzeGeometry g = Inr m" and h: "h \<in> set (halfEdges m)"
    and tw: "h_twin h = Some t"
    and last: "\<forall>h'\<in>set (halfEdges m). h_id h < h_id h' \<longrightarrow>
        (originVertex h', targetVertex h') \<noteq> (originVertex h, targetVertex h)"
  shows "t < length (halfEdges m)"
    and "originVertex (halfEdges m ! t) = targetVertex h"
    and "targetVertex (halfEdges m ! t) = originVertex h"
    and "h_twin (halfEdges m ! t) = Some (h_id h)"
proof -
  note nt = halfEdges_nth_temp[OF ok]
  from h obtain n where n: "n < length (halfEdges m)" and hn: "h = halfEdges m ! n"
    by (auto simp add: in_set_conv_nth)
  have idn: "h_id h = n"
    using halfEdges_shape(1)[OF ok n] hn by simp
  have "buildLookup (tempOf g) (t_target (tempOf g ! n), t_origin (tempOf g ! n)) = Some t"
    using tw nt(4)[OF n] hn by simp
  from lookup_tempOf_Some[OF this]
  have t: "t < length (tempOf g)" and ot: "t_origin (tempOf g ! t) = t_target (tempOf g ! n)"
    and tt: "t_target (tempOf g ! t) = t_origin (tempOf g ! n)" by simp_all
  show t': "t < length (halfEdges m)" using t nt(1) by simp
  show "originVertex (halfEdges m ! t) = targetVertex h"
    and "targetVertex (halfEdges m ! t) = originVertex h"
    using nt(2,3)[OF t'] nt(2,3)[OF n] ot tt hn by simp_all
  have "\<forall>n'. n < n' \<and> n' < length (tempOf g) \<longrightarrow>
           (t_origin (tempOf g ! n'), t_target (tempOf g ! n')) \<noteq>
           (t_origin (tempOf g ! n), t_target (tempOf g ! n))"
  proof (intro allI impI)
    fix n' assume n': "n < n' \<and> n' < length (tempOf g)"
    then have len': "n' < length (halfEdges m)" using nt(1) by simp
    then have "halfEdges m ! n' \<in> set (halfEdges m)" by simp
    moreover have "h_id h < h_id (halfEdges m ! n')"
      using halfEdges_shape(1)[OF ok len'] idn n' by simp
    ultimately have "(originVertex (halfEdges m ! n'), targetVertex (halfEdges m ! n')) \<noteq>
        (originVertex h, targetVertex h)"
      using last by blast
    then show "(t_origin (tempOf g ! n'), t_target (tempOf g ! n')) \<noteq>
           (t_origin (tempOf g ! n), t_target (tempOf g ! n))"
      using nt(2,3)[OF len'] nt(2,3)[OF n] hn by simp
  qed
  from lookup_tempOf_last[OF _ this] n nt(1)
  have "buildLookup (tempOf g) (t_origin (tempOf g ! n), t_target (tempOf g ! n)) = Some n"
    by simp
  then show "h_twin (halfEdges m ! t) = Some (h_id h)"
    using nt(4)[OF t'] ot tt idn by simp
qed

text \<open>
  Claim C2, amended. Let \<open>h\<close> be a half-edge of the output whose twin is set, and let no
  half-edge with a larger id have the same origin and target as \<open>h\<close> (so \<open>h\<close> is the one
  the lookup keeps for its directed pair; this holds for every half-edge when no
  directed pair occurs twice). Then the twin is a half-edge of the output and its
  twin is \<open>h\<close>. As stated, for every input, the claim fails: when a directed pair occurs
  on several half-edges the lookup keeps the last, and the twin of the twin of an
  earlier one is that last one.
\<close>

theorem C2_twin_symmetry_amended:
  assumes "analyzeGeometry g = Inr m" and "h \<in> set (halfEdges m)"
    and "h_twin h = Some t"
    and "\<forall>h'\<in>set (halfEdges m). h_id h < h_id h' \<longrightarrow>
        (originVertex h', targetVertex h') \<noteq> (originVertex h, targetVertex h)"
  shows "t < length (halfEdges m) \<and> h_twin (halfEdges m ! t) = Some (h_id h)"
  using twin_of_twin(1,4)[OF assms] by simp

theorem C2_twin_symmetry_amended_witness:
  "analyzeGeometry quad = Inr quadMesh \<and> halfEdges quadMesh ! 1 \<in> set (halfEdges quadMesh) \<and>
   h_twin (halfEdges quadMesh ! 1) = Some 5 \<and>
   (5::nat) < length (halfEdges quadMesh) \<and>
   h_twin (halfEdges quadMesh ! 5) = Some (h_id (halfEdges quadMesh ! 1))"
proof -
  have mem: "halfEdges quadMesh ! 1 \<in> set (halfEdges quadMesh)"
    and tw: "h_twin (halfEdges quadMesh ! 1) = Some 5"
    and last: "\<forall>h'\<in>set (halfEdges quadMesh). h_id (halfEdges quadMesh ! 1) < h_id h' \<longrightarrow>
        (originVertex h', targetVertex h') \<noteq>
        (originVertex (halfEdges quadMesh ! 1), targetVertex (halfEdges quadMesh ! 1))"
    by (simp_all add: quadMesh_def)
  from C2_twin_symmetry_amended [OF analyzeGeometry_quad mem tw last] analyzeGeometry_quad mem tw
  show ?thesis by blast
qed

theorem C2_twin_symmetry_counterexample:
  "analyzeGeometry fan = Inr fanMesh \<and> halfEdges fanMesh ! 0 \<in> set (halfEdges fanMesh) \<and>
   h_twin (halfEdges fanMesh ! 0) = Some 6 \<and> h_id (halfEdges fanMesh ! 0) = 0 \<and>
   h_twin (halfEdges fanMesh ! 6) = Some 3 \<and>
   h_twin (halfEdges fanMesh ! 6) \<noteq> Some (h_id (halfEdges fanMesh ! 0))"
  using analyzeGeometry_fan by (simp add: fanMesh_def)

lemma buildLookup_Some_last:
  "buildLookup hes k = Some t \<Longrightarrow>
   \<exists>xs he ys. hes = xs @ he # ys \<and> (t_origin he, t_target he) = k \<and> t_id he = t \<and>
     (\<forall>y\<in>set ys. (t_origin y, t_target y) \<noteq> k)"
proof (induction hes arbitrary: t rule: rev_induct)
  case Nil
  then show ?case by (simp add: buildLookup_def)
next
  case (snoc x hes)
  show ?case
  proof (cases "k = (t_origin x, t_target x)")
    case True
    with snoc.prems have "t_id x = t" by (simp add: buildLookup_snoc)
    with True have "hes @ [x] = hes @ x # [] \<and> (t_origin x, t_target x) = k \<and> t_id x = t \<and>
        (\<forall>y\<in>set []. (t_origin y, t_target y) \<noteq> k)" by simp
    then show ?thesis by blast
  next
    case False
    with snoc.prems have "buildLookup hes k = Some t" by (simp add: buildLookup_snoc)
    from snoc.IH[OF this] obtain xs he ys where d: "hes = xs @ he # ys"
      "(t_origin he, t_target he) = k" "t_id he = t"
      "\<forall>y\<in>set ys. (t_origin y, t_target y) \<noteq> k" by blast
    with False have "hes @ [x] = xs @ he # (ys @ [x]) \<and> (t_origin he, t_target he) = k \<and>
        t_id he = t \<and> (\<forall>y\<in>set (ys @ [x]). (t_origin y, t_target y) \<noteq> k)" by auto
    then show ?thesis by blast
  qed
qed

text \<open>No half-edge after the one the lookup returns has the key.\<close>

lemma lookup_tempOf_no_later:
  assumes lk: "buildLookup (tempOf g) k = Some t"
    and later: "t < n" "n < length (tempOf g)"
  shows "(t_origin (tempOf g ! n), t_target (tempOf g ! n)) \<noteq> k"
proof -
  from buildLookup_Some_last[OF lk] obtain xs he ys where d: "tempOf g = xs @ he # ys"
    and tid: "t_id he = t" and ys: "\<forall>y\<in>set ys. (t_origin y, t_target y) \<noteq> k" by blast
  have lx: "length xs < length (tempOf g)" by (simp add: d)
  have "tempOf g ! length xs = he" by (simp add: d)
  with tempOf_id[OF lx] tid have t: "t = length xs" by simp
  from later have "n - Suc t < length ys" by (simp add: d t)
  moreover from later(1) have "tempOf g ! n = ys ! (n - Suc t)"
    by (simp add: d t nth_append nth_Cons')
  ultimately have "tempOf g ! n \<in> set ys" by simp
  with ys show ?thesis by blast
qed

text \<open>
  Claim C10, amended. A half-edge whose origin equals its target always has a twin.
  The twin is the last half-edge from that vertex to itself: it runs from the vertex
  to itself, its id is not smaller than the half-edge's own, and no half-edge with a
  larger id runs from that vertex to itself. So it is the half-edge's own id exactly
  when the half-edge is itself the last one. As stated (always its own id) the claim
  fails on a face that names the same vertex three times.
\<close>

theorem C10_degenerate_twin_amended:
  assumes "analyzeGeometry g = Inr m" and "h \<in> set (halfEdges m)"
    and "originVertex h = targetVertex h"
  shows "\<exists>t. h_twin h = Some t \<and> t < length (halfEdges m) \<and>
           originVertex (halfEdges m ! t) = originVertex h \<and>
           targetVertex (halfEdges m ! t) = originVertex h \<and>
           h_id h \<le> t \<and>
           (\<forall>h'\<in>set (halfEdges m). t < h_id h' \<longrightarrow>
               (originVertex h', targetVertex h') \<noteq> (originVertex h, targetVertex h)) \<and>
           ((\<forall>h'\<in>set (halfEdges m). h_id h < h_id h' \<longrightarrow>
               (originVertex h', targetVertex h') \<noteq> (originVertex h, targetVertex h))
            \<longrightarrow> t = h_id h)"
proof -
  note nt = halfEdges_nth_temp[OF assms(1)]
  from assms(2) obtain n where n: "n < length (halfEdges m)" and hn: "h = halfEdges m ! n"
    by (auto simp add: in_set_conv_nth)
  have idn: "h_id h = n"
    using halfEdges_shape(1)[OF assms(1) n] hn by simp
  have mem: "tempOf g ! n \<in> set (tempOf g)" using n nt(1) by simp
  have eq: "t_origin (tempOf g ! n) = t_target (tempOf g ! n)"
    using assms(3) nt(2,3)[OF n] hn by simp
  have pair: "(originVertex h, targetVertex h) = (t_origin (tempOf g ! n), t_target (tempOf g ! n))"
    using nt(2,3)[OF n] hn by simp
  from buildLookup_member[OF mem] obtain t where
    lk: "buildLookup (tempOf g) (t_origin (tempOf g ! n), t_target (tempOf g ! n)) = Some t"
    by auto
  then have tw: "h_twin h = Some t"
    using nt(4)[OF n] hn eq by simp
  from lookup_tempOf_Some[OF lk] have t: "t < length (halfEdges m)"
    and ot: "t_origin (tempOf g ! t) = t_origin (tempOf g ! n)"
    and tt: "t_target (tempOf g ! t) = t_target (tempOf g ! n)"
    using nt(1) by simp_all
  have o: "originVertex (halfEdges m ! t) = originVertex h"
    and ta: "targetVertex (halfEdges m ! t) = originVertex h"
    using nt(2,3)[OF t] nt(2,3)[OF n] ot tt hn eq by simp_all
  have later: "(originVertex (halfEdges m ! n'), targetVertex (halfEdges m ! n')) \<noteq>
                 (originVertex h, targetVertex h)"
    if "t < n'" "n' < length (halfEdges m)" for n'
  proof -
    from that nt(1) have "n' < length (tempOf g)" by simp
    from lookup_tempOf_no_later[OF lk that(1) this] nt(2,3)[OF that(2)] show ?thesis
      unfolding pair by simp
  qed
  have le: "h_id h \<le> t"
  proof (rule ccontr)
    assume "\<not> h_id h \<le> t"
    then have "t < n" using idn by simp
    from later[OF this n] hn show False by simp
  qed
  have last: "\<forall>h'\<in>set (halfEdges m). t < h_id h' \<longrightarrow>
               (originVertex h', targetVertex h') \<noteq> (originVertex h, targetVertex h)"
  proof (intro ballI impI)
    fix h' assume h': "h' \<in> set (halfEdges m)" and lt: "t < h_id h'"
    from h' obtain n' where n': "n' < length (halfEdges m)" and hn': "h' = halfEdges m ! n'"
      by (auto simp add: in_set_conv_nth)
    from halfEdges_shape(1)[OF assms(1) n'] hn' lt have "t < n'" by simp
    from later[OF this n'] show "(originVertex h', targetVertex h') \<noteq> (originVertex h, targetVertex h)"
      unfolding hn' .
  qed
  have own: "t = h_id h"
    if "\<forall>h'\<in>set (halfEdges m). h_id h < h_id h' \<longrightarrow>
          (originVertex h', targetVertex h') \<noteq> (originVertex h, targetVertex h)"
  proof -
    have "h_twin (halfEdges m ! t) = Some (h_id h)"
      by (rule twin_of_twin(4)[OF assms(1,2) tw that])
    moreover have "h_twin (halfEdges m ! t) = Some t"
      using nt(4)[OF t] lk ot tt eq by simp
    ultimately show ?thesis by simp
  qed
  from tw t o ta le last own show ?thesis by blast
qed

theorem C10_degenerate_twin_amended_witness:
  "analyzeGeometry sliver = Inr sliverMesh \<and>
   halfEdges sliverMesh ! 0 \<in> set (halfEdges sliverMesh) \<and>
   originVertex (halfEdges sliverMesh ! 0) = targetVertex (halfEdges sliverMesh ! 0) \<and>
   h_twin (halfEdges sliverMesh ! 0) = Some (h_id (halfEdges sliverMesh ! 0))"
proof -
  have mem: "halfEdges sliverMesh ! 0 \<in> set (halfEdges sliverMesh)"
    and deg: "originVertex (halfEdges sliverMesh ! 0) = targetVertex (halfEdges sliverMesh ! 0)"
    and last: "\<forall>h'\<in>set (halfEdges sliverMesh). h_id (halfEdges sliverMesh ! 0) < h_id h' \<longrightarrow>
        (originVertex h', targetVertex h') \<noteq>
        (originVertex (halfEdges sliverMesh ! 0), targetVertex (halfEdges sliverMesh ! 0))"
    by (simp_all add: sliverMesh_def)
  from C10_degenerate_twin_amended [OF analyzeGeometry_sliver mem deg] last
  have "h_twin (halfEdges sliverMesh ! 0) = Some (h_id (halfEdges sliverMesh ! 0))"
    by blast
  with analyzeGeometry_sliver mem deg show ?thesis by blast
qed

theorem C10_degenerate_twin_counterexample:
  "analyzeGeometry collapsed = Inr collapsedMesh \<and>
   halfEdges collapsedMesh ! 0 \<in> set (halfEdges collapsedMesh) \<and>
   originVertex (halfEdges collapsedMesh ! 0) = targetVertex (halfEdges collapsedMesh ! 0) \<and>
   h_id (halfEdges collapsedMesh ! 0) = 0 \<and>
   h_twin (halfEdges collapsedMesh ! 0) = Some 2 \<and>
   h_twin (halfEdges collapsedMesh ! 0) \<noteq> Some (h_id (halfEdges collapsedMesh ! 0))"
  using analyzeGeometry_collapsed by (simp add: collapsedMesh_def)

subsection \<open>Winged-Edge Consolidator: the first pass\<close>

lemma getEdgeKey_left: "getEdgeKey a b = (s, e) \<Longrightarrow> a = s \<Longrightarrow> b = e"
  by (auto simp add: getEdgeKey_def split: if_splits)

lemma getEdgeKey_right: "getEdgeKey a b = (s, e) \<Longrightarrow> a \<noteq> s \<Longrightarrow> a = e \<and> b = s"
  by (auto simp add: getEdgeKey_def split: if_splits)

lemma getEdgeKey_le: "getEdgeKey a b = (s, e) \<Longrightarrow> s \<le> e"
  by (auto simp add: getEdgeKey_def split: if_splits)

lemma getEdgeKey_eq: "getEdgeKey a b = (s, e) \<Longrightarrow> s = e \<Longrightarrow> a = s \<and> b = s"
  by (auto simp add: getEdgeKey_def split: if_splits)

lemma getEdgeKey_sym: "s \<le> e \<Longrightarrow> getEdgeKey s e = (s, e) \<and> getEdgeKey e s = (s, e)"
  by (auto simp add: getEdgeKey_def)

lemma newWingedEdge_fields [simp]:
  "w_id (newWingedEdge i he) = i" "createdStep (newWingedEdge i he) = None"
  "faceLeft (newWingedEdge i he) = -1" "faceRight (newWingedEdge i he) = -1"
  "predLeft (newWingedEdge i he) = -1" "succLeft (newWingedEdge i he) = -1"
  "predRight (newWingedEdge i he) = -1" "succRight (newWingedEdge i he) = -1"
  by (simp_all add: newWingedEdge_def Let_def)

lemma newWingedEdge_key:
  "(startVertex (newWingedEdge i he), endVertex (newWingedEdge i he)) = keyOf he"
  by (simp add: newWingedEdge_def keyOf_def getEdgeKey_def Let_def)

text \<open>The step of the first pass in two halves: allocate, then assign the face.\<close>

lemma firstPass_split:
  "firstPass he st =
     (case allocate he st of (weId, wes1, e2i1) \<Rightarrow>
        (wes1[weId := assignFace he (wes1 ! weId)], e2i1, (snd (snd st))(t_id he \<mapsto> weId)))"
  by (simp add: firstPass_def allocate_def assignFace_def keyOf_def Let_def split: option.splits)

lemma assignFace_fields [simp]:
  "w_id (assignFace he we) = w_id we" "createdStep (assignFace he we) = createdStep we"
  "startVertex (assignFace he we) = startVertex we" "endVertex (assignFace he we) = endVertex we"
  "predLeft (assignFace he we) = predLeft we" "succLeft (assignFace he we) = succLeft we"
  "predRight (assignFace he we) = predRight we" "succRight (assignFace he we) = succRight we"
  by (simp_all add: assignFace_def)

lemma edgeInv_mono:
  assumes "edgeInv hes e2i i we" and "set hes \<subseteq> set hes'"
    and "e2i' (startVertex we, endVertex we) = Some i"
  shows "edgeInv hes' e2i' i we"
  using assms unfolding edgeInv_def by blast

lemma allocate_inv:
  assumes inv: "wingedInv hes st" and al: "allocate he st = (weId, wes1, e2i1)"
  shows "indexInv wes1 e2i1"
    and "weId < length wes1"
    and "e2i1 (keyOf he) = Some weId"
    and "(startVertex (wes1 ! weId), endVertex (wes1 ! weId)) = keyOf he"
    and "\<forall>i<length wes1. edgeInv (hes @ [he]) e2i1 i (wes1 ! i)"
    and "dom e2i1 = keyOf ` set (hes @ [he])"
proof -
  let ?wes = "fst st" and ?e2i = "fst (snd st)"
  from inv have ii: "indexInv ?wes ?e2i"
    and ei: "\<forall>i<length ?wes. edgeInv hes ?e2i i (?wes ! i)"
    and dm: "dom ?e2i = keyOf ` set hes"
    by (simp_all add: wingedInv_def)
  have "indexInv wes1 e2i1 \<and> weId < length wes1 \<and> e2i1 (keyOf he) = Some weId \<and>
        (startVertex (wes1 ! weId), endVertex (wes1 ! weId)) = keyOf he \<and>
        (\<forall>i<length wes1. edgeInv (hes @ [he]) e2i1 i (wes1 ! i)) \<and>
        dom e2i1 = keyOf ` set (hes @ [he])"
  proof (cases "?e2i (keyOf he)")
    case None
    with al have w: "weId = length ?wes" and w1: "wes1 = ?wes @ [newWingedEdge (length ?wes) he]"
      and e1: "e2i1 = ?e2i(keyOf he \<mapsto> length ?wes)"
      by (auto simp add: allocate_def)
    have a: "indexInv wes1 e2i1"
      unfolding indexInv_def
    proof (intro allI impI)
      fix k i assume "e2i1 k = Some i"
      then consider "k = keyOf he" "i = length ?wes" | "k \<noteq> keyOf he" "?e2i k = Some i"
        by (auto simp add: e1 split: if_splits)
      then show "i < length wes1 \<and> (startVertex (wes1 ! i), endVertex (wes1 ! i)) = k"
      proof cases
        case 1
        then show ?thesis by (simp add: w1 newWingedEdge_key)
      next
        case 2
        with ii have "i < length ?wes \<and> (startVertex (?wes ! i), endVertex (?wes ! i)) = k"
          unfolding indexInv_def by blast
        then show ?thesis by (simp add: w1 nth_append)
      qed
    qed
    have b: "\<forall>i<length wes1. edgeInv (hes @ [he]) e2i1 i (wes1 ! i)"
    proof (intro allI impI)
      fix i assume "i < length wes1"
      then have "i < Suc (length ?wes)" by (simp add: w1)
      then consider "i < length ?wes" | "i = length ?wes" by linarith
      then show "edgeInv (hes @ [he]) e2i1 i (wes1 ! i)"
      proof cases
        case 1
        with ei have old: "edgeInv hes ?e2i i (?wes ! i)" by simp
        then have "?e2i (startVertex (?wes ! i), endVertex (?wes ! i)) = Some i"
          by (simp add: edgeInv_def)
        with None have new: "e2i1 (startVertex (?wes ! i), endVertex (?wes ! i)) = Some i"
          by (auto simp add: e1)
        have sub: "set hes \<subseteq> set (hes @ [he])" by auto
        from edgeInv_mono[where e2i'=e2i1, OF old sub new] 1 show ?thesis
          by (simp add: w1 nth_append)
      next
        case 2
        then show ?thesis
          using newWingedEdge_key[of "length ?wes" he]
          by (simp add: w1 e1 edgeInv_def)
      qed
    qed
    have c: "dom e2i1 = keyOf ` set (hes @ [he])"
      using dm by (simp add: e1)
    from a b c show ?thesis by (simp add: w w1 e1 newWingedEdge_key)
  next
    case (Some found)
    with al have w: "weId = found" and w1: "wes1 = ?wes" and e1: "e2i1 = ?e2i"
      by (auto simp add: allocate_def)
    from ii Some have f: "found < length ?wes"
      and k: "(startVertex (?wes ! found), endVertex (?wes ! found)) = keyOf he"
      unfolding indexInv_def by blast+
    have b: "\<forall>i<length ?wes. edgeInv (hes @ [he]) ?e2i i (?wes ! i)"
    proof (intro allI impI)
      fix i assume i: "i < length ?wes"
      with ei have old: "edgeInv hes ?e2i i (?wes ! i)" by simp
      then have same: "?e2i (startVertex (?wes ! i), endVertex (?wes ! i)) = Some i"
        by (simp add: edgeInv_def)
      have sub: "set hes \<subseteq> set (hes @ [he])" by auto
      from edgeInv_mono[where e2i'="fst (snd st)", OF old sub same] show "edgeInv (hes @ [he]) ?e2i i (?wes ! i)" .
    qed
    have c: "dom ?e2i = keyOf ` set (hes @ [he])"
      using dm Some by auto
    from ii b c f k Some show ?thesis by (simp add: w w1 e1)
  qed
  then show "indexInv wes1 e2i1"
    and "weId < length wes1"
    and "e2i1 (keyOf he) = Some weId"
    and "(startVertex (wes1 ! weId), endVertex (wes1 ! weId)) = keyOf he"
    and "\<forall>i<length wes1. edgeInv (hes @ [he]) e2i1 i (wes1 ! i)"
    and "dom e2i1 = keyOf ` set (hes @ [he])"
    by simp_all
qed

lemma assignFace_inv:
  assumes "edgeInv (hes @ [he]) e2i i we"
    and "(startVertex we, endVertex we) = keyOf he"
  shows "edgeInv (hes @ [he]) e2i i (assignFace he we)"
proof (cases "t_origin he = startVertex we")
  case True
  with assms(2) have "t_target he = endVertex we"
    using getEdgeKey_left[of "t_origin he" "t_target he" "startVertex we" "endVertex we"]
    by (simp add: keyOf_def)
  with True assms(1) show ?thesis
    by (auto simp add: edgeInv_def assignFace_def)
next
  case False
  with assms(2) have "t_origin he = endVertex we \<and> t_target he = startVertex we"
    using getEdgeKey_right[of "t_origin he" "t_target he" "startVertex we" "endVertex we"]
    by (simp add: keyOf_def)
  with False assms(1) show ?thesis
    by (auto simp add: edgeInv_def assignFace_def)
qed

lemma firstPass_inv:
  assumes "wingedInv hes st"
  shows "wingedInv (hes @ [he]) (firstPass he st)"
proof -
  obtain weId wes1 e2i1 where al: "allocate he st = (weId, wes1, e2i1)"
    by (cases "allocate he st")
  note a = allocate_inv[OF assms al]
  let ?wes' = "wes1[weId := assignFace he (wes1 ! weId)]"
  have fp: "firstPass he st = (?wes', e2i1, (snd (snd st))(t_id he \<mapsto> weId))"
    by (simp add: firstPass_split al)
  have se: "startVertex (?wes' ! i) = startVertex (wes1 ! i) \<and>
            endVertex (?wes' ! i) = endVertex (wes1 ! i)" if "i < length wes1" for i
    using that by (cases "i = weId") simp_all
  have "indexInv ?wes' e2i1"
    using a(1) se unfolding indexInv_def by (metis length_list_update)
  moreover have "\<forall>i<length ?wes'. edgeInv (hes @ [he]) e2i1 i (?wes' ! i)"
  proof (intro allI impI)
    fix i assume "i < length ?wes'"
    then have i: "i < length wes1" by simp
    show "edgeInv (hes @ [he]) e2i1 i (?wes' ! i)"
    proof (cases "i = weId")
      case True
      with a(5) a(2) have "edgeInv (hes @ [he]) e2i1 weId (wes1 ! weId)" by simp
      from assignFace_inv[OF this a(4)] True i show ?thesis by simp
    next
      case False
      with a(5) i show ?thesis by simp
    qed
  qed
  ultimately show ?thesis
    using a(6) by (simp add: wingedInv_def fp)
qed

lemma fold_firstPass_inv:
  "wingedInv hes (fold firstPass hes ([], Map.empty, Map.empty))"
proof (induction hes rule: rev_induct)
  case Nil
  show ?case by (simp add: wingedInv_def indexInv_def)
next
  case (snoc he hes)
  from firstPass_inv[OF snoc] show ?case by simp
qed

subsection \<open>Winged-Edge Consolidator: the second pass\<close>

lemma secondPass_step:
  "secondPass lk hes heToWeMap we (acc, vf) =
     (acc @ [linkWings lk hes heToWeMap we], setIncidentEdge (linkWings lk hes heToWeMap we) vf)"
  by (simp add: secondPass_def linkWings_def Let_def)

lemma fold_secondPass:
  "fold (secondPass lk hes heToWeMap) wes (acc, vf) = (wes2, vf2) \<Longrightarrow>
   wes2 = acc @ map (linkWings lk hes heToWeMap) wes"
proof (induction wes arbitrary: acc vf)
  case Nil
  then show ?case by simp
next
  case (Cons we wes)
  from Cons.prems have "fold (secondPass lk hes heToWeMap) wes
      (acc @ [linkWings lk hes heToWeMap we], setIncidentEdge (linkWings lk hes heToWeMap we) vf)
      = (wes2, vf2)"
    by (simp add: secondPass_step)
  from Cons.IH[OF this] show ?case by simp
qed

lemma edges_analyzeGeometry:
  assumes "analyzeGeometry g = Inr m"
  shows "edges m = map (linkWings (buildLookup (tempOf g)) (linkedOf g) (snd (snd (firstPassOf g))))
                       (fst (firstPassOf g))"
  using assms
  by (auto simp add: analyzeGeometry_def firstPassOf_def linkedOf_def tempOf_def Let_def
      split: prod.splits sum.splits dest!: fold_secondPass)

lemma linkLeft_fields [simp]:
  "w_id (linkLeft lk hes m we) = w_id we" "createdStep (linkLeft lk hes m we) = createdStep we"
  "startVertex (linkLeft lk hes m we) = startVertex we"
  "endVertex (linkLeft lk hes m we) = endVertex we"
  "faceLeft (linkLeft lk hes m we) = faceLeft we" "faceRight (linkLeft lk hes m we) = faceRight we"
  "predRight (linkLeft lk hes m we) = predRight we" "succRight (linkLeft lk hes m we) = succRight we"
  by (simp_all add: linkLeft_def Let_def split: option.splits)

lemma linkRight_fields [simp]:
  "w_id (linkRight lk hes m we) = w_id we" "createdStep (linkRight lk hes m we) = createdStep we"
  "startVertex (linkRight lk hes m we) = startVertex we"
  "endVertex (linkRight lk hes m we) = endVertex we"
  "faceLeft (linkRight lk hes m we) = faceLeft we" "faceRight (linkRight lk hes m we) = faceRight we"
  "predLeft (linkRight lk hes m we) = predLeft we" "succLeft (linkRight lk hes m we) = succLeft we"
  by (simp_all add: linkRight_def Let_def split: option.splits)

lemma linkLeft_miss:
  "lk (startVertex we, endVertex we) = None \<Longrightarrow> linkLeft lk hes m we = we"
  by (simp add: linkLeft_def)

lemma linkRight_miss:
  "lk (endVertex we, startVertex we) = None \<Longrightarrow> linkRight lk hes m we = we"
  by (simp add: linkRight_def)

text \<open>
  Every winged edge of the output is a winged edge of the first pass with its wings
  linked, and the first-pass invariant holds for it.
\<close>

lemma edge_of_output:
  assumes "analyzeGeometry g = Inr m" and "we \<in> set (edges m)"
  obtains we1 i where
    "we = linkWings (buildLookup (tempOf g)) (linkedOf g) (snd (snd (firstPassOf g))) we1"
    and "edgeInv (linkedOf g) (fst (snd (firstPassOf g))) i we1"
proof -
  from assms obtain i where i: "i < length (fst (firstPassOf g))"
    and we: "we = linkWings (buildLookup (tempOf g)) (linkedOf g) (snd (snd (firstPassOf g)))
                    (fst (firstPassOf g) ! i)"
    by (auto simp add: edges_analyzeGeometry in_set_conv_nth)
  have "wingedInv (linkedOf g) (firstPassOf g)"
    unfolding firstPassOf_def by (rule fold_firstPass_inv)
  with i have "edgeInv (linkedOf g) (fst (snd (firstPassOf g))) i (fst (firstPassOf g) ! i)"
    by (simp add: wingedInv_def)
  with we that show thesis by blast
qed

lemma halfEdge_of_linked:
  assumes "analyzeGeometry g = Inr m" and "he \<in> set (linkedOf g)"
  shows "toHalfEdge he \<in> set (halfEdges m)"
  using assms by (simp add: halfEdges_analyzeGeometry)

lemma halfEdge_of_temp:
  assumes "analyzeGeometry g = Inr m" and "he \<in> set (tempOf g)"
  shows "\<exists>h\<in>set (halfEdges m). originVertex h = t_origin he \<and> targetVertex h = t_target he"
proof -
  have "toHalfEdge (linkTwin (buildLookup (tempOf g)) he) \<in> set (halfEdges m)"
    using assms by (simp add: halfEdges_analyzeGeometry linkedOf_def)
  then show ?thesis by (rule bexI[rotated]) simp
qed

subsection \<open>Winged-Edge Consolidator: faces, orientation and boundary edges\<close>

text \<open>
  Claim C4. For every winged edge of the output: if \<open>faceLeft\<close> is set (not \<open>-1\<close>), some
  half-edge of the output runs from \<open>startVertex\<close> to \<open>endVertex\<close> and belongs to the face
  \<open>faceLeft\<close>; if \<open>faceRight\<close> is set, some half-edge runs from \<open>endVertex\<close> to \<open>startVertex\<close>
  and belongs to the face \<open>faceRight\<close>.
\<close>

theorem C4_faces_of_edge:
  assumes "analyzeGeometry g = Inr m" and "we \<in> set (edges m)"
  shows "(faceLeft we \<noteq> -1 \<longrightarrow>
            (\<exists>h\<in>set (halfEdges m). originVertex h = startVertex we \<and>
               targetVertex h = endVertex we \<and> int (h_face h) = faceLeft we)) \<and>
         (faceRight we \<noteq> -1 \<longrightarrow>
            (\<exists>h\<in>set (halfEdges m). originVertex h = endVertex we \<and>
               targetVertex h = startVertex we \<and> int (h_face h) = faceRight we))"
proof -
  from assms obtain we1 i where
    we: "we = linkWings (buildLookup (tempOf g)) (linkedOf g) (snd (snd (firstPassOf g))) we1"
    and inv: "edgeInv (linkedOf g) (fst (snd (firstPassOf g))) i we1"
    by (rule edge_of_output)
  have f: "startVertex we = startVertex we1" "endVertex we = endVertex we1"
    "faceLeft we = faceLeft we1" "faceRight we = faceRight we1"
    by (simp_all add: we linkWings_def)
  have left: "\<exists>h\<in>set (halfEdges m). originVertex h = startVertex we \<and>
               targetVertex h = endVertex we \<and> int (h_face h) = faceLeft we"
    if "faceLeft we \<noteq> -1"
  proof -
    from that inv obtain he where he: "he \<in> set (linkedOf g)" "t_origin he = startVertex we1"
      "t_target he = endVertex we1" "faceLeft we1 = int (t_face he)"
      unfolding edgeInv_def f by blast
    from halfEdge_of_linked[OF assms(1) he(1)] he(2-4) show ?thesis
      by (intro bexI[of _ "toHalfEdge he"]) (simp_all add: f)
  qed
  have right: "\<exists>h\<in>set (halfEdges m). originVertex h = endVertex we \<and>
               targetVertex h = startVertex we \<and> int (h_face h) = faceRight we"
    if "faceRight we \<noteq> -1"
  proof -
    from that inv obtain he where he: "he \<in> set (linkedOf g)" "t_origin he = endVertex we1"
      "t_target he = startVertex we1" "faceRight we1 = int (t_face he)"
      unfolding edgeInv_def f by blast
    from halfEdge_of_linked[OF assms(1) he(1)] he(2-4) show ?thesis
      by (intro bexI[of _ "toHalfEdge he"]) (simp_all add: f)
  qed
  from left right show ?thesis by blast
qed

theorem C4_faces_of_edge_witness:
  "analyzeGeometry quad = Inr quadMesh \<and> edges quadMesh ! 1 \<in> set (edges quadMesh) \<and>
   faceLeft (edges quadMesh ! 1) = 0 \<and> faceRight (edges quadMesh ! 1) = 1 \<and>
   (\<exists>h\<in>set (halfEdges quadMesh). originVertex h = startVertex (edges quadMesh ! 1) \<and>
       targetVertex h = endVertex (edges quadMesh ! 1) \<and>
       int (h_face h) = faceLeft (edges quadMesh ! 1)) \<and>
   (\<exists>h\<in>set (halfEdges quadMesh). originVertex h = endVertex (edges quadMesh ! 1) \<and>
       targetVertex h = startVertex (edges quadMesh ! 1) \<and>
       int (h_face h) = faceRight (edges quadMesh ! 1))"
proof -
  have mem: "edges quadMesh ! 1 \<in> set (edges quadMesh)"
    and fl: "faceLeft (edges quadMesh ! 1) = 0" and fr: "faceRight (edges quadMesh ! 1) = 1"
    by (simp_all add: quadMesh_def)
  from C4_faces_of_edge [OF analyzeGeometry_quad mem] fl fr analyzeGeometry_quad mem
  show ?thesis by simp
qed

text \<open>
  Claim C8. No winged edge of the output has \<open>createdStep\<close>: the record is built without
  the field and neither pass assigns it.
\<close>

theorem C8_createdStep:
  assumes "analyzeGeometry g = Inr m" and "we \<in> set (edges m)"
  shows "createdStep we = None"
proof -
  from assms obtain we1 i where
    we: "we = linkWings (buildLookup (tempOf g)) (linkedOf g) (snd (snd (firstPassOf g))) we1"
    and inv: "edgeInv (linkedOf g) (fst (snd (firstPassOf g))) i we1"
    by (rule edge_of_output)
  from inv have "createdStep we1 = None" by (simp add: edgeInv_def)
  then show ?thesis by (simp add: we linkWings_def)
qed

theorem C8_createdStep_witness:
  "analyzeGeometry triangle = Inr triangleMesh \<and>
   edges triangleMesh ! 0 \<in> set (edges triangleMesh) \<and>
   createdStep (edges triangleMesh ! 0) = None"
proof -
  have mem: "edges triangleMesh ! 0 \<in> set (edges triangleMesh)"
    by (simp add: triangleMesh_def)
  from C8_createdStep [OF analyzeGeometry_triangle mem] analyzeGeometry_triangle mem
  show ?thesis by blast
qed

text \<open>
  Claim C6, amended. For every winged edge of the output \<open>startVertex \<le> endVertex\<close>, and
  \<open>startVertex < endVertex\<close> unless the edge joins a vertex to itself, in which case a
  half-edge of the output runs from that vertex to itself (a face with a repeated vertex
  id). As stated, with \<open><\<close> for inputs with degenerate faces too, the claim fails: the
  edge made from a half-edge with equal origin and target has \<open>startVertex = endVertex\<close>.
\<close>

theorem C6_orientation_amended:
  assumes "analyzeGeometry g = Inr m" and "we \<in> set (edges m)"
  shows "startVertex we < endVertex we \<or>
         (startVertex we = endVertex we \<and>
          (\<exists>h\<in>set (halfEdges m). originVertex h = startVertex we \<and>
                                   targetVertex h = startVertex we))"
proof -
  from assms obtain we1 i where
    we: "we = linkWings (buildLookup (tempOf g)) (linkedOf g) (snd (snd (firstPassOf g))) we1"
    and inv: "edgeInv (linkedOf g) (fst (snd (firstPassOf g))) i we1"
    by (rule edge_of_output)
  have f: "startVertex we = startVertex we1" "endVertex we = endVertex we1"
    by (simp_all add: we linkWings_def)
  from inv obtain he where he: "he \<in> set (linkedOf g)"
    and k: "getEdgeKey (t_origin he) (t_target he) = (startVertex we, endVertex we)"
    unfolding edgeInv_def keyOf_def f by blast
  from getEdgeKey_le[OF k] have le: "startVertex we \<le> endVertex we" .
  show ?thesis
  proof (cases "startVertex we = endVertex we")
    case True
    from getEdgeKey_eq[OF k True] halfEdge_of_linked[OF assms(1) he] True show ?thesis
      by (intro disjI2 conjI bexI[of _ "toHalfEdge he"]) simp_all
  next
    case False
    with le show ?thesis by simp
  qed
qed

theorem C6_orientation_amended_witness:
  "analyzeGeometry quad = Inr quadMesh \<and> edges quadMesh ! 2 \<in> set (edges quadMesh) \<and>
   startVertex (edges quadMesh ! 2) = 0 \<and> endVertex (edges quadMesh ! 2) = 2 \<and>
   (startVertex (edges quadMesh ! 2) < endVertex (edges quadMesh ! 2) \<or>
    (startVertex (edges quadMesh ! 2) = endVertex (edges quadMesh ! 2) \<and>
     (\<exists>h\<in>set (halfEdges quadMesh). originVertex h = startVertex (edges quadMesh ! 2) \<and>
                                   targetVertex h = startVertex (edges quadMesh ! 2))))"
proof -
  have mem: "edges quadMesh ! 2 \<in> set (edges quadMesh)"
    and se: "startVertex (edges quadMesh ! 2) = 0" "endVertex (edges quadMesh ! 2) = 2"
    by (simp_all add: quadMesh_def)
  from C6_orientation_amended [OF analyzeGeometry_quad mem] analyzeGeometry_quad mem se
  show ?thesis by blast
qed

theorem C6_orientation_counterexample:
  "analyzeGeometry sliver = Inr sliverMesh \<and> edges sliverMesh ! 0 \<in> set (edges sliverMesh) \<and>
   startVertex (edges sliverMesh ! 0) = 0 \<and> endVertex (edges sliverMesh ! 0) = 0 \<and>
   \<not> startVertex (edges sliverMesh ! 0) < endVertex (edges sliverMesh ! 0)"
  using analyzeGeometry_sliver by (simp add: sliverMesh_def)

text \<open>
  Claim C7, amended. Let a winged edge of the output have two different end vertices and
  let exactly one half-edge \<open>h\<close> have its undirected key. If \<open>h\<close> runs from start to end, then
  \<open>faceRight\<close>, \<open>predRight\<close> and \<open>succRight\<close> are \<open>-1\<close>; if \<open>h\<close> runs from end to start, then
  \<open>faceLeft\<close>, \<open>predLeft\<close> and \<open>succLeft\<close> are \<open>-1\<close>. Without the condition on the end vertices
  the claim fails: the only half-edge of a key \<open>(v,v)\<close> runs both ways, the lookup of the
  right side finds it, and the right wings are set.
\<close>

theorem C7_boundary_amended:
  assumes ok: "analyzeGeometry g = Inr m" and we: "we \<in> set (edges m)"
    and ne: "startVertex we \<noteq> endVertex we"
    and sole: "filter (\<lambda>h'. getEdgeKey (originVertex h') (targetVertex h') =
                             (startVertex we, endVertex we)) (halfEdges m) = [h]"
  shows "(originVertex h = startVertex we \<and> targetVertex h = endVertex we \<longrightarrow>
            faceRight we = -1 \<and> predRight we = -1 \<and> succRight we = -1) \<and>
         (originVertex h = endVertex we \<and> targetVertex h = startVertex we \<longrightarrow>
            faceLeft we = -1 \<and> predLeft we = -1 \<and> succLeft we = -1)"
proof -
  let ?lk = "buildLookup (tempOf g)"
  from ok we obtain we1 i where
    w: "we = linkWings ?lk (linkedOf g) (snd (snd (firstPassOf g))) we1"
    and inv: "edgeInv (linkedOf g) (fst (snd (firstPassOf g))) i we1"
    by (rule edge_of_output)
  have f: "startVertex we1 = startVertex we" "endVertex we1 = endVertex we"
    "faceLeft we1 = faceLeft we" "faceRight we1 = faceRight we"
    by (simp_all add: w linkWings_def)
  from inv have wings: "predLeft we1 = -1" "succLeft we1 = -1" "predRight we1 = -1"
    "succRight we1 = -1"
    by (simp_all add: edgeInv_def)
  from inv obtain he0 where "keyOf he0 = (startVertex we, endVertex we)"
    unfolding edgeInv_def f by blast
  then have le: "startVertex we \<le> endVertex we"
    unfolding keyOf_def by (rule getEdgeKey_le)
  note sym = getEdgeKey_sym[OF le]
  have only: "h' = h" if "h' \<in> set (halfEdges m)"
    "getEdgeKey (originVertex h') (targetVertex h') = (startVertex we, endVertex we)" for h'
  proof -
    from that have "h' \<in> set (filter (\<lambda>h'. getEdgeKey (originVertex h') (targetVertex h') =
                             (startVertex we, endVertex we)) (halfEdges m))" by simp
    then show ?thesis unfolding sole by simp
  qed
  have forward: "originVertex h = startVertex we"
    if "h' \<in> set (halfEdges m)" "originVertex h' = startVertex we" "targetVertex h' = endVertex we"
    for h'
    using only[OF that(1)] that(2,3) sym by simp
  have backward: "originVertex h = endVertex we"
    if "h' \<in> set (halfEdges m)" "originVertex h' = endVertex we" "targetVertex h' = startVertex we"
    for h'
    using only[OF that(1)] that(2,3) sym by simp
  have noLeft: "faceLeft we = -1 \<and> ?lk (startVertex we, endVertex we) = None"
    if "originVertex h = endVertex we"
  proof (intro conjI)
    show "faceLeft we = -1"
    proof (rule ccontr)
      assume "faceLeft we \<noteq> -1"
      with inv obtain he where "he \<in> set (linkedOf g)" "t_origin he = startVertex we"
        "t_target he = endVertex we"
        unfolding edgeInv_def f by blast
      with forward[of "toHalfEdge he"] halfEdge_of_linked[OF ok] that ne show False by simp
    qed
    show "?lk (startVertex we, endVertex we) = None"
    proof (rule ccontr)
      assume "?lk (startVertex we, endVertex we) \<noteq> None"
      then obtain t where "?lk (startVertex we, endVertex we) = Some t" by auto
      from buildLookup_Some[OF this] obtain he where he: "he \<in> set (tempOf g)"
        "t_origin he = startVertex we" "t_target he = endVertex we" by auto
      from halfEdge_of_temp[OF ok he(1)] obtain h' where "h' \<in> set (halfEdges m)"
        "originVertex h' = startVertex we" "targetVertex h' = endVertex we"
        using he(2,3) by auto
      from forward[OF this] that ne show False by simp
    qed
  qed
  have noRight: "faceRight we = -1 \<and> ?lk (endVertex we, startVertex we) = None"
    if "originVertex h = startVertex we"
  proof (intro conjI)
    show "faceRight we = -1"
    proof (rule ccontr)
      assume "faceRight we \<noteq> -1"
      with inv obtain he where "he \<in> set (linkedOf g)" "t_origin he = endVertex we"
        "t_target he = startVertex we"
        unfolding edgeInv_def f by blast
      with backward[of "toHalfEdge he"] halfEdge_of_linked[OF ok] that ne show False by simp
    qed
    show "?lk (endVertex we, startVertex we) = None"
    proof (rule ccontr)
      assume "?lk (endVertex we, startVertex we) \<noteq> None"
      then obtain t where "?lk (endVertex we, startVertex we) = Some t" by auto
      from buildLookup_Some[OF this] obtain he where he: "he \<in> set (tempOf g)"
        "t_origin he = endVertex we" "t_target he = startVertex we" by auto
      from halfEdge_of_temp[OF ok he(1)] obtain h' where "h' \<in> set (halfEdges m)"
        "originVertex h' = endVertex we" "targetVertex h' = startVertex we"
        using he(2,3) by auto
      from backward[OF this] that ne show False by simp
    qed
  qed
  have right: "faceRight we = -1 \<and> predRight we = -1 \<and> succRight we = -1"
    if "originVertex h = startVertex we"
  proof -
    from noRight[OF that] have fr: "faceRight we = -1"
      and miss: "?lk (endVertex we1, startVertex we1) = None"
      by (simp_all add: f)
    have "predRight we = predRight we1 \<and> succRight we = succRight we1"
      using miss by (simp add: w linkWings_def linkRight_miss)
    with wings fr show ?thesis by simp
  qed
  have left: "faceLeft we = -1 \<and> predLeft we = -1 \<and> succLeft we = -1"
    if "originVertex h = endVertex we"
  proof -
    from noLeft[OF that] have fl: "faceLeft we = -1"
      and miss: "?lk (startVertex we1, endVertex we1) = None"
      by (simp_all add: f)
    have "predLeft we = predLeft we1 \<and> succLeft we = succLeft we1"
      using miss by (simp add: w linkWings_def linkLeft_miss)
    with wings fl show ?thesis by simp
  qed
  from left right show ?thesis by blast
qed

theorem C7_boundary_amended_witness:
  "analyzeGeometry triangle = Inr triangleMesh \<and>
   edges triangleMesh ! 0 \<in> set (edges triangleMesh) \<and>
   startVertex (edges triangleMesh ! 0) \<noteq> endVertex (edges triangleMesh ! 0) \<and>
   filter (\<lambda>h'. getEdgeKey (originVertex h') (targetVertex h') =
              (startVertex (edges triangleMesh ! 0), endVertex (edges triangleMesh ! 0)))
     (halfEdges triangleMesh) = [halfEdges triangleMesh ! 0] \<and>
   originVertex (halfEdges triangleMesh ! 0) = startVertex (edges triangleMesh ! 0) \<and>
   targetVertex (halfEdges triangleMesh ! 0) = endVertex (edges triangleMesh ! 0) \<and>
   faceRight (edges triangleMesh ! 0) = -1 \<and> predRight (edges triangleMesh ! 0) = -1 \<and>
   succRight (edges triangleMesh ! 0) = -1"
proof -
  have mem: "edges triangleMesh ! 0 \<in> set (edges triangleMesh)"
    and ne: "startVertex (edges triangleMesh ! 0) \<noteq> endVertex (edges triangleMesh ! 0)"
    and sole: "filter (\<lambda>h'. getEdgeKey (originVertex h') (targetVertex h') =
              (startVertex (edges triangleMesh ! 0), endVertex (edges triangleMesh ! 0)))
     (halfEdges triangleMesh) = [halfEdges triangleMesh ! 0]"
    and dir: "originVertex (halfEdges triangleMesh ! 0) = startVertex (edges triangleMesh ! 0)"
      "targetVertex (halfEdges triangleMesh ! 0) = endVertex (edges triangleMesh ! 0)"
    by (simp_all add: triangleMesh_def getEdgeKey_def)
  from C7_boundary_amended [OF analyzeGeometry_triangle mem ne sole] dir
  have "faceRight (edges triangleMesh ! 0) = -1 \<and> predRight (edges triangleMesh ! 0) = -1 \<and>
        succRight (edges triangleMesh ! 0) = -1" by blast
  with analyzeGeometry_triangle mem ne sole dir show ?thesis by blast
qed

theorem C7_boundary_counterexample:
  "analyzeGeometry sliver = Inr sliverMesh \<and>
   edges sliverMesh ! 0 \<in> set (edges sliverMesh) \<and>
   filter (\<lambda>h'. getEdgeKey (originVertex h') (targetVertex h') =
              (startVertex (edges sliverMesh ! 0), endVertex (edges sliverMesh ! 0)))
     (halfEdges sliverMesh) = [halfEdges sliverMesh ! 0] \<and>
   originVertex (halfEdges sliverMesh ! 0) = startVertex (edges sliverMesh ! 0) \<and>
   targetVertex (halfEdges sliverMesh ! 0) = endVertex (edges sliverMesh ! 0) \<and>
   predRight (edges sliverMesh ! 0) = 1 \<and> succRight (edges sliverMesh ! 0) = 1 \<and>
   predRight (edges sliverMesh ! 0) \<noteq> -1"
  using analyzeGeometry_sliver by (simp add: sliverMesh_def getEdgeKey_def)

subsection \<open>Winged-Edge Consolidator: counting the edges\<close>

lemma key_count:
  fixes D :: "(nat \<times> nat) set"
  assumes fin: "finite D" and nd: "\<forall>p\<in>D. fst p \<noteq> snd p"
  shows "2 * card ((\<lambda>p. getEdgeKey (fst p) (snd p)) ` D) = card D + card {p\<in>D. prod.swap p \<notin> D}"
proof -
  let ?k = "\<lambda>p::nat \<times> nat. getEdgeKey (fst p) (snd p)"
  define B where "B = {p\<in>D. prod.swap p \<notin> D}"
  define L where "L = {p\<in>D. prod.swap p \<in> D \<and> fst p < snd p}"
  define G where "G = {p\<in>D. prod.swap p \<in> D \<and> snd p < fst p}"
  have finB: "finite B" and finL: "finite L" and finG: "finite G"
    using fin by (simp_all add: B_def L_def G_def)
  have D: "D = B \<union> (L \<union> G)"
    using nd by (auto simp add: B_def L_def G_def)
  have disj: "B \<inter> (L \<union> G) = {}" "L \<inter> G = {}"
    by (auto simp add: B_def L_def G_def)
  have cD: "card D = card B + (card L + card G)"
    using finB finL finG disj by (subst D) (simp add: card_Un_disjoint)
  have GL: "G = prod.swap ` L"
  proof
    show "G \<subseteq> prod.swap ` L"
    proof
      fix p assume "p \<in> G"
      then have "prod.swap p \<in> L" by (simp add: L_def G_def)
      moreover have "p = prod.swap (prod.swap p)" by simp
      ultimately show "p \<in> prod.swap ` L" by (rule image_eqI[rotated])
    qed
    show "prod.swap ` L \<subseteq> G"
    proof
      fix p assume "p \<in> prod.swap ` L"
      then obtain q where "q \<in> L" "p = prod.swap q" by blast
      then show "p \<in> G" by (simp add: L_def G_def)
    qed
  qed
  have cG: "card G = card L"
    unfolding GL by (rule card_image) simp
  have kid: "?k p = p" if "p \<in> L" for p
    using that by (cases p) (simp add: L_def getEdgeKey_def)
  have kswap: "?k p = prod.swap p" if "p \<in> G" for p
    using that by (cases p) (simp add: G_def getEdgeKey_def)
  have "?k ` L = id ` L"
    by (rule image_cong) (simp_all add: kid)
  then have kL: "?k ` L = L" by simp
  have "?k ` G = prod.swap ` G"
    by (rule image_cong) (simp_all add: kswap)
  also have "\<dots> = (\<lambda>p. prod.swap (prod.swap p)) ` L"
    unfolding GL by (simp only: image_image)
  also have "\<dots> = L" by simp
  finally have kG: "?k ` G = L" .
  have kD: "?k ` D = ?k ` B \<union> L"
    by (subst D) (simp add: image_Un kL kG)
  have kcases: "q = p \<or> q = prod.swap p" if "?k p = ?k q" for p q
    using that by (cases p; cases q) (auto simp add: getEdgeKey_def split: if_splits)
  have injB: "inj_on ?k B"
  proof (rule inj_onI)
    fix p q assume "p \<in> B" "q \<in> B" "?k p = ?k q"
    with kcases[of p q] show "p = q" by (auto simp add: B_def)
  qed
  have kBL: "?k ` B \<inter> L = {}"
  proof (rule ccontr)
    assume "?k ` B \<inter> L \<noteq> {}"
    then obtain p where p: "p \<in> B" "?k p \<in> L" by auto
    from kcases[of p "?k p"] have "?k p = p \<or> ?k p = prod.swap p"
      by (cases p) (auto simp add: getEdgeKey_def)
    with p show False by (auto simp add: B_def L_def)
  qed
  have "card (?k ` D) = card (?k ` B) + card L"
    using finB finL kBL by (simp add: kD card_Un_disjoint)
  also have "card (?k ` B) = card B"
    using injB by (rule card_image)
  finally have "card (?k ` D) = card B + card L" .
  with cD cG show ?thesis by (simp add: B_def)
qed

text \<open>The first pass makes one winged edge per undirected key.\<close>

lemma card_edges:
  assumes "wingedInv hes st"
  shows "length (fst st) = card (keyOf ` set hes)"
proof -
  let ?wes = "fst st" and ?e2i = "fst (snd st)"
  let ?f = "\<lambda>i. (startVertex (?wes ! i), endVertex (?wes ! i))"
  from assms have ii: "indexInv ?wes ?e2i"
    and ei: "\<forall>i<length ?wes. edgeInv hes ?e2i i (?wes ! i)"
    and dm: "dom ?e2i = keyOf ` set hes"
    by (simp_all add: wingedInv_def)
  have bk: "?e2i (?f i) = Some i" if "i < length ?wes" for i
    using ei that by (simp add: edgeInv_def)
  have inj: "inj_on ?f {..<length ?wes}"
  proof (rule inj_onI)
    fix i j assume i: "i \<in> {..<length ?wes}" and j: "j \<in> {..<length ?wes}"
      and eq: "?f i = ?f j"
    from i have "?e2i (?f i) = Some i" by (intro bk) simp
    moreover from j have "?e2i (?f j) = Some j" by (intro bk) simp
    ultimately have "Some i = Some j" by (simp only: eq)
    then show "i = j" by simp
  qed
  have img: "?f ` {..<length ?wes} = dom ?e2i"
  proof
    show "?f ` {..<length ?wes} \<subseteq> dom ?e2i"
    proof
      fix k assume "k \<in> ?f ` {..<length ?wes}"
      then obtain i where i: "i < length ?wes" and k: "k = ?f i" by blast
      from bk[OF i] have "?e2i k = Some i" unfolding k .
      then show "k \<in> dom ?e2i" by (rule domI)
    qed
    show "dom ?e2i \<subseteq> ?f ` {..<length ?wes}"
    proof
      fix k assume "k \<in> dom ?e2i"
      then obtain i where "?e2i k = Some i" by blast
      with ii have "i < length ?wes \<and> ?f i = k" unfolding indexInv_def by blast
      then have "i \<in> {..<length ?wes}" and "k = ?f i" by simp_all
      then show "k \<in> ?f ` {..<length ?wes}" by (rule image_eqI[rotated])
    qed
  qed
  have "card (dom ?e2i) = card (?f ` {..<length ?wes})"
    by (simp only: img)
  also have "\<dots> = card {..<length ?wes}"
    using inj by (rule card_image)
  finally show ?thesis by (simp add: dm)
qed

lemma length_edges:
  assumes "analyzeGeometry g = Inr m"
  shows "length (edges m) =
         card ((\<lambda>h. getEdgeKey (originVertex h) (targetVertex h)) ` set (halfEdges m))"
proof -
  have "wingedInv (linkedOf g) (firstPassOf g)"
    unfolding firstPassOf_def by (rule fold_firstPass_inv)
  from card_edges[OF this] have "length (edges m) = card (keyOf ` set (linkedOf g))"
    by (simp add: edges_analyzeGeometry[OF assms])
  also have "keyOf ` set (linkedOf g) =
      (\<lambda>h. getEdgeKey (originVertex h) (targetVertex h)) ` set (halfEdges m)"
    by (simp add: halfEdges_analyzeGeometry[OF assms] image_image keyOf_def)
  finally show ?thesis .
qed

lemma twin_iff:
  assumes ok: "analyzeGeometry g = Inr m" and h: "h \<in> set (halfEdges m)"
  shows "h_twin h \<noteq> None \<longleftrightarrow>
         (targetVertex h, originVertex h) \<in>
           (\<lambda>h'. (originVertex h', targetVertex h')) ` set (halfEdges m)"
proof -
  note nt = halfEdges_nth_temp[OF ok]
  from h obtain n where n: "n < length (halfEdges m)" and hn: "h = halfEdges m ! n"
    by (auto simp add: in_set_conv_nth)
  have tw: "h_twin h = buildLookup (tempOf g) (targetVertex h, originVertex h)"
    using nt(2,3,4)[OF n] hn by simp
  show ?thesis
  proof
    assume "h_twin h \<noteq> None"
    then obtain t where "buildLookup (tempOf g) (targetVertex h, originVertex h) = Some t"
      using tw by auto
    from buildLookup_Some[OF this] obtain he where he: "he \<in> set (tempOf g)"
      "(t_origin he, t_target he) = (targetVertex h, originVertex h)" by blast
    from halfEdge_of_temp[OF ok he(1)] obtain h' where "h' \<in> set (halfEdges m)"
      "originVertex h' = t_origin he" "targetVertex h' = t_target he" by blast
    with he(2) show "(targetVertex h, originVertex h) \<in>
           (\<lambda>h'. (originVertex h', targetVertex h')) ` set (halfEdges m)"
      by (intro image_eqI[of _ _ h']) simp_all
  next
    assume "(targetVertex h, originVertex h) \<in>
           (\<lambda>h'. (originVertex h', targetVertex h')) ` set (halfEdges m)"
    then obtain h' where h': "h' \<in> set (halfEdges m)"
      and p: "(targetVertex h, originVertex h) = (originVertex h', targetVertex h')" by blast
    from h' obtain n' where n': "n' < length (halfEdges m)" and hn': "h' = halfEdges m ! n'"
      by (auto simp add: in_set_conv_nth)
    have "tempOf g ! n' \<in> set (tempOf g)" using n' nt(1) by simp
    from buildLookup_member[OF this] nt(2,3)[OF n'] hn' p tw
    show "h_twin h \<noteq> None" by simp
  qed
qed

text \<open>
  Claim C5, amended. When no two half-edges of the output have the same origin and
  target and no half-edge has its origin as its target, the number of winged edges is
  at least half the number of half-edges, with equality exactly when every half-edge has
  a twin. As stated (at most half) the claim fails already on a single triangle, which
  has three half-edges and three winged edges.
\<close>

theorem C5_edge_count_amended:
  assumes ok: "analyzeGeometry g = Inr m"
    and dist: "distinct (map (\<lambda>h. (originVertex h, targetVertex h)) (halfEdges m))"
    and nd: "\<forall>h\<in>set (halfEdges m). originVertex h \<noteq> targetVertex h"
  shows "length (halfEdges m) \<le> 2 * length (edges m) \<and>
         (2 * length (edges m) = length (halfEdges m) \<longleftrightarrow>
          (\<forall>h\<in>set (halfEdges m). h_twin h \<noteq> None))"
proof -
  let ?pair = "\<lambda>h. (originVertex h, targetVertex h)"
  let ?D = "?pair ` set (halfEdges m)"
  let ?B = "{p\<in>?D. prod.swap p \<notin> ?D}"
  have fin: "finite ?D" by simp
  have cD: "card ?D = length (halfEdges m)"
    using distinct_card[OF dist] by simp
  have nd': "\<forall>p\<in>?D. fst p \<noteq> snd p"
    using nd by auto
  have "(\<lambda>p. getEdgeKey (fst p) (snd p)) ` ?D =
        (\<lambda>h. getEdgeKey (originVertex h) (targetVertex h)) ` set (halfEdges m)"
    by (simp add: image_image)
  with key_count[OF fin nd'] length_edges[OF ok] cD
  have count: "2 * length (edges m) = length (halfEdges m) + card ?B"
    by simp
  have finB: "finite ?B" by simp
  have "card ?B = 0 \<longleftrightarrow> ?B = {}"
    using finB by (rule card_0_eq)
  also have "?B = {} \<longleftrightarrow> (\<forall>h\<in>set (halfEdges m). (targetVertex h, originVertex h) \<in> ?D)"
    by auto
  also have "\<dots> \<longleftrightarrow> (\<forall>h\<in>set (halfEdges m). h_twin h \<noteq> None)"
    using twin_iff[OF ok] by simp
  finally have "card ?B = 0 \<longleftrightarrow> (\<forall>h\<in>set (halfEdges m). h_twin h \<noteq> None)" .
  with count show ?thesis by auto
qed

theorem C5_edge_count_amended_witness:
  "analyzeGeometry quad = Inr quadMesh \<and>
   distinct (map (\<lambda>h. (originVertex h, targetVertex h)) (halfEdges quadMesh)) \<and>
   length (halfEdges quadMesh) = 6 \<and> length (edges quadMesh) = 5 \<and>
   length (halfEdges quadMesh) \<le> 2 * length (edges quadMesh) \<and>
   (2 * length (edges quadMesh) = length (halfEdges quadMesh)) =
     (\<forall>h\<in>set (halfEdges quadMesh). h_twin h \<noteq> None)"
proof -
  have dist: "distinct (map (\<lambda>h. (originVertex h, targetVertex h)) (halfEdges quadMesh))"
    and nd: "\<forall>h\<in>set (halfEdges quadMesh). originVertex h \<noteq> targetVertex h"
    and len: "length (halfEdges quadMesh) = 6" "length (edges quadMesh) = 5"
    by (simp_all add: quadMesh_def)
  from C5_edge_count_amended [OF analyzeGeometry_quad dist nd] analyzeGeometry_quad dist len
  show ?thesis by blast
qed

theorem C5_edge_count_counterexample:
  "analyzeGeometry triangle = Inr triangleMesh \<and>
   length (edges triangleMesh) = 3 \<and> length (halfEdges triangleMesh) = 3 \<and>
   \<not> 2 * length (edges triangleMesh) \<le> length (halfEdges triangleMesh)"
  using analyzeGeometry_triangle by (simp add: triangleMesh_def)

subsection \<open>Well-formed input: the engine returns and its indices are in range\<close>

lemma merged_ids_in_range:
  assumes "mergeVertices g = (ids, st)"
  shows "\<forall>i\<in>set ids. i < length (fst st)"
proof
  fix i assume "i \<in> set ids"
  then obtain n where n: "n < length ids" and i: "i = ids ! n"
    by (auto simp add: in_set_conv_nth)
  from assms have m: "mergeAll (position g) (bufferOffsets g) ([], Map.empty) = (ids, st)"
    by (simp add: mergeVertices_def)
  from mergeAll_keys[OF mergerInv_empty m] n
  have inv: "mergerInv st"
    and k: "snd st (roundedKey (position g) (bufferOffsets g ! n)) = Some (ids ! n)"
    by simp_all
  from inv k show "i < length (fst st)"
    unfolding mergerInv_def i by blast
qed

lemma buildFaces_complete:
  "length pis mod 3 = 0 \<Longrightarrow> 3 * length (buildFaces k pis) = length pis"
proof (induction k pis rule: buildFaces.induct)
  case (1 k a b c rest)
  then show ?case by simp
qed simp_all

lemma buildFaces_vertices:
  "f \<in> set (buildFaces k pis) \<Longrightarrow> f_v1 f \<in> set pis \<and> f_v2 f \<in> set pis \<and> f_v3 f \<in> set pis"
proof (induction k pis rule: buildFaces.induct)
  case (1 k a b c rest)
  then show ?case by auto
qed simp_all

lemma buildSoup_Inr:
  "\<forall>i\<in>set pis. i < length verts \<Longrightarrow> length pis mod 3 = 0 \<Longrightarrow>
   \<exists>ts. buildSoup verts k pis = Inr ts"
proof (induction verts k pis rule: buildSoup.induct)
  case (1 verts k)
  show ?case by simp
next
  case (2 verts k a b c rest)
  from "2.prems" have "\<exists>ts. buildSoup verts (Suc k) rest = Inr ts"
    by (intro "2.IH") (simp_all add: vertexAt_def)
  with "2.prems"(1) show ?case by (auto simp add: vertexAt_def)
qed simp_all

lemma error_TypeError: "(e::error) = TypeError"
  by (cases e)

lemma buildSoup_Inl:
  "length pis mod 3 \<noteq> 0 \<Longrightarrow> buildSoup verts k pis = Inl TypeError"
proof (induction verts k pis rule: buildSoup.induct)
  case (2 verts k a b c rest)
  show ?case
  proof (cases "vertexAt verts a")
    case (Inl e)
    then show ?thesis using error_TypeError[of e] by simp
  next
    case p1: (Inr p1)
    show ?thesis
    proof (cases "vertexAt verts b")
      case (Inl e)
      then show ?thesis using p1 error_TypeError[of e] by simp
    next
      case p2: (Inr p2)
      show ?thesis
      proof (cases "vertexAt verts c")
        case (Inl e)
        then show ?thesis using p1 p2 error_TypeError[of e] by simp
      next
        case p3: (Inr p3)
        from "2.prems" have "length rest mod 3 \<noteq> 0" by simp
        from "2.IH"[OF p1 p2 p3 this] p1 p2 p3 show ?thesis by simp
      qed
    qed
  qed
qed simp_all

text \<open>
  The engine returns a mesh exactly when the number of processed indices is a multiple
  of three; otherwise the soup loop throws.
\<close>

lemma analyzeGeometry_returns:
  "(\<exists>m. analyzeGeometry g = Inr m) \<longleftrightarrow> length (bufferOffsets g) mod 3 = 0"
proof -
  obtain ids st where mv: "mergeVertices g = (ids, st)"
    by (cases "mergeVertices g")
  then have m: "mergeAll (position g) (bufferOffsets g) ([], Map.empty) = (ids, st)"
    by (simp add: mergeVertices_def)
  from mergeAll_keys[OF mergerInv_empty m] have len: "length ids = length (bufferOffsets g)"
    by simp
  show ?thesis
  proof (cases "length ids mod 3 = 0")
    case True
    from buildSoup_Inr[OF merged_ids_in_range[OF mv] True] obtain ts
      where "buildSoup (fst st) 0 ids = Inr ts" by blast
    then have "\<exists>m. analyzeGeometry g = Inr m"
      by (simp add: analyzeGeometry_def mv Let_def split: prod.splits)
    with True len show ?thesis by simp
  next
    case False
    from buildSoup_Inl[OF False] have "analyzeGeometry g = Inl TypeError"
      by (simp add: analyzeGeometry_def mv)
    with False len show ?thesis by simp
  qed
qed

text \<open>
  The vertex ids of the half-edges are ids of merged vertices, so the back-references
  of the later passes are written to vertices that exist.
\<close>

lemma tempOf_vertices_in_range:
  assumes "he \<in> set (tempOf g)"
  shows "t_origin he < length (fst (snd (mergeVertices g))) \<and>
         t_target he < length (fst (snd (mergeVertices g)))"
proof -
  obtain ids st where mv: "mergeVertices g = (ids, st)"
    by (cases "mergeVertices g")
  note rng = merged_ids_in_range[OF mv]
  from assms obtain f where f: "f \<in> set (buildFaces 0 ids)" and he: "he \<in> set (faceHalfEdges f)"
    by (auto simp add: tempOf_def buildTempHalfEdges_def mv)
  from buildFaces_vertices[OF f] rng
  have v: "f_v1 f < length (fst st)" "f_v2 f < length (fst st)" "f_v3 f < length (fst st)"
    by simp_all
  from he obtain i where "i < 3" "he = faceHalfEdges f ! i"
    by (auto simp add: in_set_conv_nth length_faceHalfEdges)
  moreover from this have "i = 0 \<or> i = 1 \<or> i = 2" by linarith
  ultimately show ?thesis
    using v by (auto simp add: faceHalfEdges_nth mv)
qed

end
